theory Spec2Isabelle
  imports Main "HOL-Library.Char_ord" "HOL-Library.List_Lexorder"
begin

text \<open>
  A model of the Mython interpreter: the lexer of lexer.cpp, the runtime of runtime.cpp
  (values, classes, method lookup, calls, comparisons; in the sources it follows lexer.h
  in the file src/mython/lexer.h) and the nodes of the syntax tree of statement.cpp
  (src/unnamed/part_001) with their \<^verbatim>\<open>Execute\<close>. The definitions come first, each next to the
  function of the sources it follows; the properties of the lexer and of the evaluator
  are proved after them.
\<close>


section \<open>The lexer (lexer.h, lexer.cpp)\<close>

subsection \<open>Tokens and failures\<close>

text \<open>
  \<^verbatim>\<open>parse::Token\<close> is a variant over the structs of namespace \<^verbatim>\<open>token_type\<close>. The
  constructors carry the prefix \<open>Tok_\<close> in place of the namespace, since the runtime and
  the syntax tree reuse several of the names.
\<close>

datatype Token =
    Tok_Number int | Tok_Id string | Tok_Char char | Tok_String string
  | Tok_Class | Tok_Return | Tok_If | Tok_Else | Tok_Def | Tok_Newline | Tok_Print
  | Tok_Indent | Tok_Dedent | Tok_And | Tok_Or | Tok_Not | Tok_Eq | Tok_NotEq
  | Tok_LessOrEq | Tok_GreaterOrEq | Tok_None | Tok_True | Tok_False | Tok_Eof

text \<open>
  What the constructor of \<^verbatim>\<open>Lexer\<close> can throw: a \<^verbatim>\<open>LexerError\<close> with its message, or the
  \<^verbatim>\<open>std::out_of_range\<close> of \<^verbatim>\<open>std::stoi\<close> in \<^verbatim>\<open>SplitTokenNumber\<close>.
\<close>

datatype lexer_failure = LexerError string | StoiOutOfRange

subsection \<open>Characters\<close>

definition backslash :: char where "backslash = CHR 0x5C"
definition dquote :: char where "dquote = CHR 0x22"
definition squote :: char where "squote = CHR 0x27"
definition LF :: char where "LF = CHR 0x0A"
definition TAB :: char where "TAB = CHR 0x09"

text \<open>\<^verbatim>\<open>std::isspace\<close> and \<^verbatim>\<open>std::isdigit\<close> in the default C locale.\<close>

definition isspace :: "char \<Rightarrow> bool" where
  "isspace c = (c \<in> set [CHR '' '', TAB, LF, CHR 0x0B, CHR 0x0C, CHR 0x0D])"

definition isdigit :: "char \<Rightarrow> bool" where
  "isdigit c = (c \<in> set ''0123456789'')"

subsection \<open>Static tables\<close>

text \<open>
  The two tables are \<^verbatim>\<open>std::map\<close>s keyed by \<^verbatim>\<open>std::string_view\<close>: iterating them (as
  \<^verbatim>\<open>GetKeyWords\<close> and \<^verbatim>\<open>GetSymbolsForComparison\<close> do) visits the keys in increasing
  byte order, which is the order of the lists below.
\<close>

definition key_words_for_tokens :: "(string \<times> Token) list" where
  "key_words_for_tokens =
     [(''False'', Tok_False), (''None'', Tok_None), (''True'', Tok_True),
      (''and'', Tok_And), (''class'', Tok_Class), (''def'', Tok_Def),
      (''else'', Tok_Else), (''if'', Tok_If), (''not'', Tok_Not), (''or'', Tok_Or),
      (''print'', Tok_Print), (''return'', Tok_Return)]"

definition symbols_for_comparison :: "(string \<times> Token) list" where
  "symbols_for_comparison =
     [(''!='', Tok_NotEq), (''<='', Tok_LessOrEq), (''=='', Tok_Eq), (''>='', Tok_GreaterOrEq)]"

definition chars :: "char list" where
  "chars = ''<>=+-*/().,:''"

definition GetKeyWords :: "string list" where
  "GetKeyWords = map fst key_words_for_tokens"

definition GetSymbolsForComparison :: "string list" where
  "GetSymbolsForComparison = map fst symbols_for_comparison"

definition GetTokenFromKeyWord :: "string \<Rightarrow> lexer_failure + Token" where
  "GetTokenFromKeyWord key_word =
     (case map_of key_words_for_tokens key_word of
        None \<Rightarrow> Inl (LexerError ''logic error in Lexer::GetTokenFromKeyWord'')
      | Some t \<Rightarrow> Inr t)"

definition GetTokenFromComparison :: "string \<Rightarrow> lexer_failure + Token" where
  "GetTokenFromComparison comparison =
     (case map_of symbols_for_comparison comparison of
        None \<Rightarrow> Inl (LexerError ''logic error in Lexer::GetTokenFromComparison'')
      | Some t \<Rightarrow> Inr t)"

subsection \<open>The token splitters\<close>

text \<open>
  Every splitter takes the \<^verbatim>\<open>string_view& line\<close> and returns \<^verbatim>\<open>std::optional<Token>\<close>;
  when it returns a token it has removed a prefix from the view. The model returns the
  token together with the remaining view, \<open>None\<close> for \<^verbatim>\<open>std::nullopt\<close> (the view is then
  untouched), and \<open>Inl\<close> for a throw.
\<close>

type_synonym spliter = "string \<Rightarrow> lexer_failure + (Token \<times> string) option"

text \<open>\<^verbatim>\<open>RemoveSpaceLeft\<close>: the count of removed spaces and the remaining view.\<close>

definition RemoveSpaceLeft :: "string \<Rightarrow> nat \<times> string" where
  "RemoveSpaceLeft line =
     (length (takeWhile (\<lambda>c. c = CHR '' '') line), dropWhile (\<lambda>c. c = CHR '' '') line)"

definition SplitTokenChar :: spliter where
  "SplitTokenChar line =
     (if line \<noteq> [] \<and> hd line \<in> set chars then Inr (Some (Tok_Char (hd line), tl line))
      else Inr None)"

text \<open>
  \<^verbatim>\<open>std::stoi\<close> on a run of decimal digits: the value, or \<^verbatim>\<open>std::out_of_range\<close> when it
  does not fit an \<^verbatim>\<open>int\<close> (32 bits).
\<close>

definition digits_value :: "string \<Rightarrow> int" where
  "digits_value ds = foldl (\<lambda>acc c. 10 * acc + (of_char c - 48)) 0 ds"

definition stoi :: "string \<Rightarrow> lexer_failure + int" where
  "stoi ds = (if digits_value ds > 2147483647 then Inl StoiOutOfRange
              else Inr (digits_value ds))"

definition SplitTokenNumber :: spliter where
  "SplitTokenNumber line =
     (let pos = length (takeWhile isdigit line) in
      if pos \<noteq> 0 then
        (case stoi (take pos line) of
           Inl e \<Rightarrow> Inl e
         | Inr num \<Rightarrow> Inr (Some (Tok_Number num, drop pos line)))
      else Inr None)"

definition symbols_range :: string where
  "symbols_range = [dquote, squote]"

definition symbols_for_backslash_shielding :: string where
  "symbols_for_backslash_shielding = [dquote, squote, CHR ''n'', CHR ''t'']"

text \<open>
  The three-way choice at the end of the backslash branch of \<^verbatim>\<open>SplitTokenString\<close>, on the
  character \<^verbatim>\<open>line[pos]\<close> that the branch has settled on.
\<close>

definition append_escaped :: "string \<Rightarrow> char \<Rightarrow> string" where
  "append_escaped v x =
     (if x = CHR ''n'' then v @ [LF] else if x = CHR ''t'' then v @ [TAB] else v @ [x])"

text \<open>
  The \<^verbatim>\<open>while (pos < line.size())\<close> loop of \<^verbatim>\<open>SplitTokenString\<close>. The second argument is
  the view from \<^verbatim>\<open>pos\<close> on, the third is \<^verbatim>\<open>value\<close>; the result is \<^verbatim>\<open>value\<close> and the view
  left by \<^verbatim>\<open>line.remove_prefix(pos)\<close>. In the backslash branch \<^verbatim>\<open>pos\<close> moves onto the
  next character only if there is one and it is one of \<^verbatim>\<open>" ' n t\<close>; otherwise
  \<^verbatim>\<open>line[pos]\<close> is still the backslash. The loop ends at the closing quote or, with no
  throw, at the end of the view.
\<close>

fun scan_string :: "char \<Rightarrow> string \<Rightarrow> string \<Rightarrow> string \<times> string" where
  "scan_string start [] v = (v, [])"
| "scan_string start (c # cs) v =
     (if c = backslash then
        (case cs of
           [] \<Rightarrow> scan_string start cs (append_escaped v c)
         | d # ds \<Rightarrow>
             if d \<in> set symbols_for_backslash_shielding
             then scan_string start ds (append_escaped v d)
             else scan_string start cs (append_escaped v c))
      else if c = start then (v, cs)
      else scan_string start cs (v @ [c]))"

definition SplitTokenString :: spliter where
  "SplitTokenString line =
     (if line = [] \<or> hd line \<notin> set symbols_range then Inr None
      else (let (v, rest) = scan_string (hd line) (tl line) [] in
            Inr (Some (Tok_String v, rest))))"

definition CheckSymbolForIdBegin :: "char \<Rightarrow> bool" where
  "CheckSymbolForIdBegin c =
     (c = CHR ''_'' \<or> (CHR ''a'' \<le> c \<and> c \<le> CHR ''z'') \<or> (CHR ''A'' \<le> c \<and> c \<le> CHR ''Z''))"

definition CheckSymbolForId :: "char \<Rightarrow> bool" where
  "CheckSymbolForId c = (CheckSymbolForIdBegin c \<or> isdigit c)"

definition SplitTokenId :: spliter where
  "SplitTokenId line =
     (if line = [] \<or> \<not> CheckSymbolForIdBegin (hd line) then Inr None
      else (let pos = 1 + length (takeWhile CheckSymbolForId (tl line)) in
            Inr (Some (Tok_Id (take pos line), drop pos line))))"

text \<open>
  \<^verbatim>\<open>std::find_if\<close> returns the first table entry that is a prefix of the view; the test on
  the character after it is made for that entry only.
\<close>

definition SplitTokenKeyWord :: spliter where
  "SplitTokenKeyWord line =
     (case find (\<lambda>key_word. length line \<ge> length key_word
                              \<and> take (length key_word) line = key_word) GetKeyWords of
        None \<Rightarrow> Inr None
      | Some w \<Rightarrow>
          if length line = length w \<or> isspace (line ! length w)
             \<or> line ! length w = CHR '':'' \<or> line ! length w = CHR '',''
          then (case GetTokenFromKeyWord w of
                  Inl e \<Rightarrow> Inl e
                | Inr t \<Rightarrow> Inr (Some (t, drop (length w) line)))
          else Inr None)"

definition SplitTokenComparison :: spliter where
  "SplitTokenComparison line =
     (case find (\<lambda>comparison. length line \<ge> length comparison
                              \<and> take (length comparison) line = comparison)
                GetSymbolsForComparison of
        None \<Rightarrow> Inr None
      | Some w \<Rightarrow>
          (case GetTokenFromComparison w of
             Inl e \<Rightarrow> Inl e
           | Inr t \<Rightarrow> Inr (Some (t, drop (length w) line))))"

definition GetSplitersOfTokens :: "spliter list" where
  "GetSplitersOfTokens =
     [SplitTokenKeyWord, SplitTokenComparison, SplitTokenChar,
      SplitTokenNumber, SplitTokenString, SplitTokenId]"

text \<open>The \<^verbatim>\<open>for\<close> loop of \<^verbatim>\<open>SplitTokenLeft\<close> and the throw after it.\<close>

fun try_spliters :: "spliter list \<Rightarrow> string \<Rightarrow> lexer_failure + (Token \<times> string)" where
  "try_spliters [] line = Inl (LexerError ''logic error in Lexer::SplitTokenLeft'')"
| "try_spliters (split_token # more) line =
     (case split_token line of
        Inl e \<Rightarrow> Inl e
      | Inr (Some r) \<Rightarrow> Inr r
      | Inr None \<Rightarrow> try_spliters more line)"

text \<open>
  \<^verbatim>\<open>SplitTokenLeft\<close>: on an empty view or a \<^verbatim>\<open>#\<close> it empties the view and returns
  \<^verbatim>\<open>std::nullopt\<close>.
\<close>

definition SplitTokenLeft :: "string \<Rightarrow> lexer_failure + (Token option \<times> string)" where
  "SplitTokenLeft line =
     (if line = [] \<or> hd line = CHR ''#'' then Inr (None, [])
      else (case try_spliters GetSplitersOfTokens line of
              Inl e \<Rightarrow> Inl e
            | Inr (t, rest) \<Rightarrow> Inr (Some t, rest)))"


subsection \<open>Every returned token shortens the view\<close>

lemma scan_string_length: "length (snd (scan_string start l v)) \<le> length l"
proof (induction start l v rule: scan_string.induct)
  case (1 start v)
  show ?case by simp
next
  case (2 start c cs v)
  show ?case
  proof (cases "c = backslash")
    case True
    show ?thesis
    proof (cases cs)
      case Nil
      with True 2(1) show ?thesis by simp
    next
      case (Cons d ds)
      show ?thesis
      proof (cases "d \<in> set symbols_for_backslash_shielding")
        case s: True
        with True Cons 2(2) [of d ds] show ?thesis by simp
      next
        case s: False
        with True Cons 2(3) [of d ds] show ?thesis by simp
      qed
    qed
  next
    case False
    with 2(4) show ?thesis by (cases "c = start") simp_all
  qed
qed

lemma find_SomeD: "find P xs = Some w \<Longrightarrow> w \<in> set xs \<and> P w"
  by (induction xs) (auto split: if_splits)

lemma GetKeyWords_nonempty: "w \<in> set GetKeyWords \<Longrightarrow> w \<noteq> []"
  by (auto simp: GetKeyWords_def key_words_for_tokens_def)

lemma GetSymbolsForComparison_nonempty: "w \<in> set GetSymbolsForComparison \<Longrightarrow> w \<noteq> []"
  by (auto simp: GetSymbolsForComparison_def symbols_for_comparison_def)

lemma drop_shorter:
  "w \<noteq> [] \<Longrightarrow> length w \<le> length line \<Longrightarrow> length (drop (length w) line) < length line"
  by (cases w) auto

lemma SplitTokenKeyWord_shorter:
  assumes "SplitTokenKeyWord line = Inr (Some (t, rest))"
  shows "length rest < length line"
proof -
  from assms obtain w where w: "find (\<lambda>key_word. length line \<ge> length key_word
                              \<and> take (length key_word) line = key_word) GetKeyWords = Some w"
    and rest: "rest = drop (length w) line"
    by (auto simp: SplitTokenKeyWord_def split: option.splits if_splits sum.splits)
  from find_SomeD [OF w] have "w \<noteq> []" "length w \<le> length line"
    by (simp_all add: GetKeyWords_nonempty)
  then show ?thesis unfolding rest by (rule drop_shorter)
qed

lemma SplitTokenComparison_shorter:
  assumes "SplitTokenComparison line = Inr (Some (t, rest))"
  shows "length rest < length line"
proof -
  from assms obtain w where w: "find (\<lambda>comparison. length line \<ge> length comparison
                              \<and> take (length comparison) line = comparison)
                GetSymbolsForComparison = Some w"
    and rest: "rest = drop (length w) line"
    by (auto simp: SplitTokenComparison_def split: option.splits if_splits sum.splits)
  from find_SomeD [OF w] have "w \<noteq> []" "length w \<le> length line"
    by (simp_all add: GetSymbolsForComparison_nonempty)
  then show ?thesis unfolding rest by (rule drop_shorter)
qed

lemma SplitTokenChar_shorter:
  "SplitTokenChar line = Inr (Some (t, rest)) \<Longrightarrow> length rest < length line"
  by (cases line) (auto simp: SplitTokenChar_def split: if_splits)

lemma SplitTokenNumber_shorter:
  assumes "SplitTokenNumber line = Inr (Some (t, rest))"
  shows "length rest < length line"
proof -
  from assms have pos: "takeWhile isdigit line \<noteq> []"
    and rest: "rest = drop (length (takeWhile isdigit line)) line"
    by (auto simp: SplitTokenNumber_def Let_def split: if_splits sum.splits)
  show ?thesis unfolding rest
    using pos by (intro drop_shorter) (simp_all add: length_takeWhile_le)
qed

lemma SplitTokenString_shorter:
  assumes "SplitTokenString line = Inr (Some (t, rest))"
  shows "length rest < length line"
proof -
  from assms have ne: "line \<noteq> []"
    and rest: "rest = snd (scan_string (hd line) (tl line) [])"
    by (auto simp: SplitTokenString_def split: if_splits prod.splits)
  have "length rest \<le> length (tl line)"
    unfolding rest by (rule scan_string_length)
  with ne show ?thesis by (cases line) simp_all
qed

lemma SplitTokenId_shorter:
  "SplitTokenId line = Inr (Some (t, rest)) \<Longrightarrow> length rest < length line"
  by (cases line) (auto simp: SplitTokenId_def Let_def split: if_splits)

lemma try_spliters_shorter:
  assumes "try_spliters GetSplitersOfTokens line = Inr (t, rest)"
  shows "length rest < length line"
  using assms
  by (auto simp: GetSplitersOfTokens_def split: sum.splits option.splits
      dest: SplitTokenKeyWord_shorter SplitTokenComparison_shorter SplitTokenChar_shorter
        SplitTokenNumber_shorter SplitTokenString_shorter SplitTokenId_shorter)

lemma SplitTokenLeft_shorter:
  "line \<noteq> [] \<Longrightarrow> SplitTokenLeft line = Inr (tok, rest) \<Longrightarrow> length rest < length line"
  by (auto simp: SplitTokenLeft_def split: if_splits sum.splits dest: try_spliters_shorter)

lemma RemoveSpaceLeft_length: "length (snd (RemoveSpaceLeft line)) \<le> length line"
  by (simp add: RemoveSpaceLeft_def length_dropWhile_le)

subsection \<open>The constructor of the lexer\<close>

text \<open>
  The inner loop \<^verbatim>\<open>while (!line_view.empty())\<close> of the constructor, on the view and the
  vector \<^verbatim>\<open>tokens_of_current_line\<close>.
\<close>

function tokens_of_line :: "string \<Rightarrow> Token list \<Rightarrow> lexer_failure + Token list" where
  "tokens_of_line line_view tokens_of_current_line =
     (if line_view = [] then Inr tokens_of_current_line
      else if snd (RemoveSpaceLeft line_view) = [] then Inr tokens_of_current_line
      else (case SplitTokenLeft (snd (RemoveSpaceLeft line_view)) of
              Inl e \<Rightarrow> Inl e
            | Inr r \<Rightarrow>
                tokens_of_line (snd r)
                  (case fst r of
                     None \<Rightarrow> tokens_of_current_line
                   | Some token \<Rightarrow> tokens_of_current_line @ [token])))"
  by pat_completeness auto
termination
proof (relation "measure (\<lambda>(line_view, _). length line_view)")
  show "wf (measure (\<lambda>(line_view, _). length line_view))" by simp
next
  fix line_view :: string and tokens_of_current_line :: "Token list" and r
  assume ne: "snd (RemoveSpaceLeft line_view) \<noteq> []"
    and r: "SplitTokenLeft (snd (RemoveSpaceLeft line_view)) = Inr r"
  have "length (snd r) < length (snd (RemoveSpaceLeft line_view))"
    using SplitTokenLeft_shorter [OF ne, of "fst r" "snd r"] r by simp
  also have "\<dots> \<le> length line_view" by (rule RemoveSpaceLeft_length)
  finally show "((snd r, case fst r of None \<Rightarrow> tokens_of_current_line
                   | Some token \<Rightarrow> tokens_of_current_line @ [token]),
                 line_view, tokens_of_current_line)
       \<in> measure (\<lambda>(line_view, _). length line_view)" by simp
qed

declare tokens_of_line.simps [simp del]

text \<open>
  The state of the outer loop: \<^verbatim>\<open>prev_indent\<close> and the member \<^verbatim>\<open>tokens_\<close>.
\<close>

record lexer_state =
  prev_indent :: nat
  tokens :: "Token list"

text \<open>
  One iteration of \<^verbatim>\<open>while (std::getline(input, line))\<close>, on the line read. The only
  \<^verbatim>\<open>continue\<close> is for a view that is empty once its leading spaces are removed; a line
  whose first character after the spaces is \<^verbatim>\<open>#\<close> goes through the parity test and the
  indentation branch, and \<^verbatim>\<open>prev_indent\<close> is assigned, before \<^verbatim>\<open>SplitTokenLeft\<close> drops the
  comment.
\<close>

definition lex_line :: "string \<Rightarrow> lexer_state \<Rightarrow> lexer_failure + lexer_state" where
  "lex_line line s =
     (let (current_indent, line_view) = RemoveSpaceLeft line in
      if line_view = [] then Inr s
      else if current_indent mod 2 \<noteq> 0 then Inl (LexerError ''Error of indent'')
      else
        (let tokens_of_current_line =
               (if current_indent > prev_indent s then [Tok_Indent]
                else if current_indent < prev_indent s
                then replicate ((prev_indent s - current_indent) div 2) Tok_Dedent
                else [])
         in case tokens_of_line line_view tokens_of_current_line of
              Inl e \<Rightarrow> Inl e
            | Inr ts \<Rightarrow>
                Inr \<lparr>prev_indent = current_indent,
                     tokens = (if ts \<noteq> [] then tokens s @ ts @ [Tok_Newline]
                               else tokens s)\<rparr>))"

text \<open>
  \<^verbatim>\<open>std::getline\<close> on the rest of the input: it fails on an exhausted stream, otherwise it
  returns the characters before the next line feed and consumes the line feed.
\<close>

definition getline :: "string \<Rightarrow> (string \<times> string) option" where
  "getline input =
     (if input = [] then None
      else Some (takeWhile (\<lambda>c. c \<noteq> LF) input, drop 1 (dropWhile (\<lambda>c. c \<noteq> LF) input)))"

lemma getline_shorter: "getline input = Some (line, rest) \<Longrightarrow> length rest < length input"
proof -
  assume "getline input = Some (line, rest)"
  then have ne: "input \<noteq> []" and rest: "rest = drop 1 (dropWhile (\<lambda>c. c \<noteq> LF) input)"
    by (auto simp: getline_def split: if_splits)
  show ?thesis
  proof (cases "dropWhile (\<lambda>c. c \<noteq> LF) input")
    case Nil
    with ne rest show ?thesis by simp
  next
    case (Cons a as)
    have "length (dropWhile (\<lambda>c. c \<noteq> LF) input) \<le> length input"
      by (rule length_dropWhile_le)
    with Cons rest show ?thesis by simp
  qed
qed

text \<open>The outer loop, and the lines after it that close the open blocks.\<close>

function lex_input :: "string \<Rightarrow> lexer_state \<Rightarrow> lexer_failure + lexer_state" where
  "lex_input input s =
     (case getline input of
        None \<Rightarrow> Inr s
      | Some r \<Rightarrow>
          (case lex_line (fst r) s of
             Inl e \<Rightarrow> Inl e
           | Inr s' \<Rightarrow> lex_input (snd r) s'))"
  by pat_completeness auto
termination
proof (relation "measure (\<lambda>(input, _). length input)")
  show "wf (measure (\<lambda>(input, _). length input))" by simp
next
  fix input :: string and s s' :: lexer_state and r
  assume "getline input = Some r"
  then have "length (snd r) < length input"
    using getline_shorter [of input "fst r" "snd r"] by simp
  then show "((snd r, s'), input, s) \<in> measure (\<lambda>(input, _). length input)" by simp
qed

declare lex_input.simps [simp del]

text \<open>
  The constructor \<^verbatim>\<open>Lexer::Lexer\<close>: the token vector it leaves in \<^verbatim>\<open>tokens_\<close>, or what it
  throws.
\<close>

definition Lexer :: "string \<Rightarrow> lexer_failure + Token list" where
  "Lexer input =
     (case lex_input input \<lparr>prev_indent = 0, tokens = []\<rparr> of
        Inl e \<Rightarrow> Inl e
      | Inr s \<Rightarrow> Inr (tokens s @ replicate (prev_indent s div 2) Tok_Dedent @ [Tok_Eof]))"

section \<open>The runtime (runtime.cpp) and the syntax tree (statement.cpp)\<close>

subsection \<open>Objects, holders, classes and statements\<close>

text \<open>
  The types of the runtime and of the syntax tree refer to each other: a \<^verbatim>\<open>Method\<close> owns
  the \<^verbatim>\<open>Executable\<close> that is its body, \<^verbatim>\<open>NewInstance\<close> holds a \<^verbatim>\<open>const Class&\<close> and
  \<^verbatim>\<open>ClassDefinition\<close> an \<^verbatim>\<open>ObjectHolder\<close>.

  \<^item> An \<^verbatim>\<open>ObjectHolder\<close> is a \<^verbatim>\<open>std::shared_ptr<Object>\<close>: empty (\<^verbatim>\<open>ObjectHolder::None()\<close>),
    owning (\<^verbatim>\<open>Own\<close>) or with a deleter that does nothing (\<^verbatim>\<open>Share\<close>). Copying a holder
    keeps its kind.
  \<^item> \<^verbatim>\<open>Number\<close>, \<^verbatim>\<open>String\<close>, \<^verbatim>\<open>Bool\<close> and \<^verbatim>\<open>Class\<close> objects are never modified after their
    construction, so a holder carries their value. A \<^verbatim>\<open>ClassInstance\<close> is modified through
    \<^verbatim>\<open>Fields()\<close> and can be reached from several holders: a holder carries its address in
    the store of instances.
  \<^item> A \<^verbatim>\<open>Class\<close> is the object as its constructor leaves it: the name, the vector
    \<^verbatim>\<open>methods_\<close> and the pointer \<^verbatim>\<open>parent_\<close> (null or a class).
  \<^item> \<^verbatim>\<open>FieldAssignment\<close> stores its \<^verbatim>\<open>VariableValue object_\<close> as the dotted names of it.
  \<^item> \<^verbatim>\<open>IfElse\<close> stores \<^verbatim>\<open>else_body_\<close> as an optional statement (a null pointer or not).
  \<^item> \<^verbatim>\<open>Comparison\<close> stores its \<^verbatim>\<open>Comparator\<close>, one of the six functions of runtime.cpp.

  The value type of \<^verbatim>\<open>Number\<close> is declared in runtime.h; the model takes unbounded
  integers for it.
\<close>

datatype Comparator =
  Cmp_Equal | Cmp_Less | Cmp_NotEqual | Cmp_Greater | Cmp_LessOrEqual | Cmp_GreaterOrEqual

datatype Object =
    Number int | String string | Bool bool | Class_object Class | ClassInstance nat
and ObjectHolder = None_holder | Own Object | Share Object
and Class =
    Class (GetName: string) (GetMethods: "Method list") (parent': "Class option")
and Method =
    Method (name: string) (formal_params: "string list") (body: Statement)
and Statement =
    NumberConst int
  | StringConst string
  | BoolConst bool
  | NoneConst
  | Assignment string Statement
  | VariableValue "string list"
  | Print "Statement list"
  | MethodCall Statement string "Statement list"
  | Stringify Statement
  | Add Statement Statement
  | Sub Statement Statement
  | Mult Statement Statement
  | Div Statement Statement
  | Compound "Statement list"
  | Return Statement
  | ClassDefinition ObjectHolder
  | FieldAssignment "string list" string Statement
  | IfElse Statement Statement "Statement option"
  | Or Statement Statement
  | And Statement Statement
  | Not_stmt Statement
  | Comparison Comparator Statement Statement
  | NewInstance Class "Statement list"
  | MethodBody Statement

text \<open>
  Modelled from the spec: the literal nodes \<^verbatim>\<open>NumberConst\<close>, \<^verbatim>\<open>StringConst\<close>, \<^verbatim>\<open>BoolConst\<close> and
  \<^verbatim>\<open>NoneConst\<close> are declared in statement.h, which is not among the sources; by the spec
  they "produce the corresponding owned holder (\<^verbatim>\<open>None\<close> returns \<^verbatim>\<open>ObjectHolder::None()\<close>)".
\<close>

text \<open>
  Modelled from the spec: \<^verbatim>\<open>Closure\<close> is declared in runtime.h, which is not among the
  sources; by the spec it is "a mapping from identifier (string) to \<^verbatim>\<open>ObjectHolder\<close>" in
  which "insertion order is irrelevant; keys are unique". The sources use it through
  \<^verbatim>\<open>find\<close>, \<^verbatim>\<open>operator[]\<close> and \<^verbatim>\<open>emplace\<close>.
\<close>

type_synonym Closure = "string \<Rightarrow> ObjectHolder option"

text \<open>A \<^verbatim>\<open>ClassInstance\<close> object: the members \<^verbatim>\<open>cls_\<close> and \<^verbatim>\<open>closure_\<close> (a name cannot end
  with an underscore here, so the fields end with a prime).\<close>

record ClassInstance_rec =
  cls' :: Class
  closure' :: Closure

text \<open>
  What a call of \<^verbatim>\<open>Execute\<close> can reach beside its closure: the \<^verbatim>\<open>ClassInstance\<close> objects
  by address, the next free address, and the characters written so far to the stream of
  the \<^verbatim>\<open>Context\<close>. Objects are never removed from the store: the model does not follow
  reference counts.
\<close>

record state =
  instances :: "nat \<Rightarrow> ClassInstance_rec"
  next_instance :: nat
  output_stream :: string

text \<open>
  How a call can end other than by returning: the \<^verbatim>\<open>ObjectHolder\<close> thrown by \<^verbatim>\<open>Return\<close>, a
  \<^verbatim>\<open>std::runtime_error\<close>, a member call through a null pointer (\<^verbatim>\<open>TryAs<T>()->\<close> on a
  holder of another kind), the \<^verbatim>\<open>assert\<close> of \<^verbatim>\<open>AssertIsValid\<close>, and the model's running
  out of fuel, which stands for a call that does not return.
\<close>

datatype thrown =
    thrown_ObjectHolder ObjectHolder
  | runtime_error string
  | null_dereference
  | assertion_failed
  | out_of_fuel

subsection \<open>Holders\<close>

fun Get :: "ObjectHolder \<Rightarrow> Object option" where
  "Get None_holder = None"
| "Get (Own obj) = Some obj"
| "Get (Share obj) = Some obj"

text \<open>\<^verbatim>\<open>TryAs<T>\<close>, a \<^verbatim>\<open>dynamic_cast\<close> of \<^verbatim>\<open>Get()\<close>, for each \<^verbatim>\<open>T\<close> in use.\<close>

definition TryAs_String :: "ObjectHolder \<Rightarrow> string option" where
  "TryAs_String h = (case Get h of Some (String v) \<Rightarrow> Some v | _ \<Rightarrow> None)"

definition TryAs_Number :: "ObjectHolder \<Rightarrow> int option" where
  "TryAs_Number h = (case Get h of Some (Number v) \<Rightarrow> Some v | _ \<Rightarrow> None)"

definition TryAs_Bool :: "ObjectHolder \<Rightarrow> bool option" where
  "TryAs_Bool h = (case Get h of Some (Bool v) \<Rightarrow> Some v | _ \<Rightarrow> None)"

definition TryAs_Class :: "ObjectHolder \<Rightarrow> Class option" where
  "TryAs_Class h = (case Get h of Some (Class_object c) \<Rightarrow> Some c | _ \<Rightarrow> None)"

definition TryAs_ClassInstance :: "ObjectHolder \<Rightarrow> nat option" where
  "TryAs_ClassInstance h = (case Get h of Some (ClassInstance a) \<Rightarrow> Some a | _ \<Rightarrow> None)"

definition IsTrue :: "ObjectHolder \<Rightarrow> bool" where
  "IsTrue object =
     (case TryAs_String object of
        Some v \<Rightarrow> v \<noteq> []
      | None \<Rightarrow>
          (case TryAs_Number object of
             Some v \<Rightarrow> v \<noteq> 0
           | None \<Rightarrow>
               (case TryAs_Bool object of
                  Some v \<Rightarrow> v
                | None \<Rightarrow> False)))"

subsection \<open>Closures and the store\<close>

text \<open>\<^verbatim>\<open>closure[key]\<close> as a reference: an absent key is inserted with an empty holder.\<close>

definition subscript :: "Closure \<Rightarrow> string \<Rightarrow> Closure" where
  "subscript closure key =
     (case closure key of None \<Rightarrow> closure(key \<mapsto> None_holder) | Some _ \<Rightarrow> closure)"

text \<open>\<^verbatim>\<open>closure.emplace(key, value)\<close>: a key that is present keeps its value.\<close>

definition emplace :: "Closure \<Rightarrow> string \<Rightarrow> ObjectHolder \<Rightarrow> Closure" where
  "emplace closure key v =
     (case closure key of None \<Rightarrow> closure(key \<mapsto> v) | Some _ \<Rightarrow> closure)"

definition Fields :: "state \<Rightarrow> nat \<Rightarrow> Closure" where
  "Fields st a = closure' (instances st a)"

text \<open>\<^verbatim>\<open>Fields()[key] = v\<close> on the instance at an address.\<close>

definition set_field :: "state \<Rightarrow> nat \<Rightarrow> string \<Rightarrow> ObjectHolder \<Rightarrow> state" where
  "set_field st a key v =
     st\<lparr>instances := (instances st)(a := (instances st a)\<lparr>closure' := (Fields st a)(key \<mapsto> v)\<rparr>)\<rparr>"

text \<open>
  \<^verbatim>\<open>ObjectHolder::Own(runtime::ClassInstance(cls))\<close>: a new object with an empty closure,
  at an address not in use.
\<close>

definition new_ClassInstance :: "Class \<Rightarrow> state \<Rightarrow> nat \<times> state" where
  "new_ClassInstance cls st =
     (next_instance st,
      st\<lparr>instances := (instances st)(next_instance st := \<lparr>cls' = cls, closure' = Map.empty\<rparr>),
         next_instance := Suc (next_instance st)\<rparr>)"

text \<open>\<^verbatim>\<open>context.GetOutputStream() << s\<close>.\<close>

definition put :: "string \<Rightarrow> state \<Rightarrow> state" where
  "put s st = st\<lparr>output_stream := output_stream st @ s\<rparr>"

subsection \<open>Classes\<close>

text \<open>
  The constructor of \<^verbatim>\<open>Class\<close> sorts the methods by name (\<^verbatim>\<open>std::sort\<close>, which leaves the
  order of equal names open; the model keeps their order).
\<close>

definition new_Class :: "string \<Rightarrow> Method list \<Rightarrow> Class option \<Rightarrow> Class" where
  "new_Class nm ms p = Class nm (sort_key name ms) p"

text \<open>
  \<^verbatim>\<open>Class::GetMethod\<close>: \<^verbatim>\<open>std::lower_bound\<close> on the sorted vector is its first method whose
  name is not less than the one looked up; the loop goes on in the parent while nothing
  is found.
\<close>

fun GetMethod :: "Class \<Rightarrow> string \<Rightarrow> Method option" where
  "GetMethod (Class nm ms p) n =
     (case dropWhile (\<lambda>mth. name mth < n) ms of
        [] \<Rightarrow> (case p of None \<Rightarrow> None | Some c \<Rightarrow> GetMethod c n)
      | m # _ \<Rightarrow>
          if name m = n then Some m
          else (case p of None \<Rightarrow> None | Some c \<Rightarrow> GetMethod c n))"

definition HasMethod :: "Class \<Rightarrow> string \<Rightarrow> nat \<Rightarrow> bool" where
  "HasMethod cls method argument_count =
     (case GetMethod cls method of
        Some mth \<Rightarrow> length (formal_params mth) = argument_count
      | None \<Rightarrow> False)"

subsection \<open>Printing of values\<close>

fun show_nat :: "nat \<Rightarrow> string" where
  "show_nat n =
     (if n < 10 then [''0123456789'' ! n]
      else show_nat (n div 10) @ [''0123456789'' ! (n mod 10)])"

declare show_nat.simps [simp del]

definition show_int :: "int \<Rightarrow> string" where
  "show_int i = (if i < 0 then CHR ''-'' # show_nat (nat (- i)) else show_nat (nat i))"

text \<open>
  \<^verbatim>\<open>os << this\<close> in \<^verbatim>\<open>ClassInstance::Print\<close> writes the address of the object in a form that
  the implementation defines; the model writes the address in the store.
\<close>

definition show_address :: "nat \<Rightarrow> string" where
  "show_address a = ''0x'' @ show_nat a"

text \<open>Integer division of C++: the quotient is truncated towards zero.\<close>

definition cpp_div :: "int \<Rightarrow> int \<Rightarrow> int" where
  "cpp_div a b = sgn a * sgn b * (\<bar>a\<bar> div \<bar>b\<bar>)"

subsection \<open>\<^verbatim>\<open>VariableValue::Execute\<close>\<close>

text \<open>
  The loop over \<^verbatim>\<open>var_names_\<close>, on the names left, the closure that \<^verbatim>\<open>current_closure\<close>
  points to and \<^verbatim>\<open>obj\<close>. \<^verbatim>\<open>current_closure\<close> moves into the fields of the value found only
  when that value is a \<^verbatim>\<open>ClassInstance\<close>; for any other value it stays where it is, with no
  throw.
\<close>

fun lookup_names :: "state \<Rightarrow> string list \<Rightarrow> Closure \<Rightarrow> ObjectHolder \<Rightarrow> thrown + ObjectHolder" where
  "lookup_names st [] current_closure obj = Inr obj"
| "lookup_names st (var_name # names_left) current_closure obj =
     (case current_closure var_name of
        None \<Rightarrow> Inl (runtime_error (''Variable '' @ var_name @ '' not found''))
      | Some found \<Rightarrow>
          lookup_names st names_left
            (case TryAs_ClassInstance found of
               Some a \<Rightarrow> Fields st a
             | None \<Rightarrow> current_closure)
            found)"


subsection \<open>\<^verbatim>\<open>Execute\<close>, \<^verbatim>\<open>ClassInstance::Call\<close>, \<^verbatim>\<open>Print\<close> and the comparisons\<close>

text \<open>
  \<^verbatim>\<open>Execute(closure, context)\<close> takes the closure by reference: the model returns it next
  to the result and the state, also when the call ends with a throw, since what was
  written before the throw stays written. A closure passed to \<^verbatim>\<open>Execute\<close> is never the
  field closure of an instance (\<^verbatim>\<open>Call\<close> builds a local one), so it is passed by value.

  A Mython program need not terminate, so \<open>Execute\<close> below takes fuel: the code of a node
  runs with one unit more than the nodes it executes. The code of each node, and the
  functions of the runtime that execute method bodies, are written once, over the
  function \<open>run\<close> that executes a statement with the fuel that is left.

  Two things are fixed here that C++ leaves open. The operands of \<^verbatim>\<open>Comparison::Execute\<close>
  are arguments of one call of \<^verbatim>\<open>cmp_\<close>, so their order is the compiler's choice: the
  model evaluates the left one first. Arithmetic on \<^verbatim>\<open>Number\<close> is on unbounded integers,
  where a signed overflow in C++ is undefined. No property below depends on either.
\<close>

type_synonym executor =
  "Statement \<Rightarrow> Closure \<Rightarrow> state \<Rightarrow> (thrown + ObjectHolder) \<times> Closure \<times> state"

text \<open>
  The loop \<^verbatim>\<open>for (auto& ex : args_) args.push_back(ex->Execute(closure, context))\<close> of
  \<^verbatim>\<open>MethodCall\<close> and \<^verbatim>\<open>NewInstance\<close>.
\<close>

fun exec_args :: "executor \<Rightarrow> Statement list \<Rightarrow> Closure \<Rightarrow> state
                  \<Rightarrow> (thrown + ObjectHolder list) \<times> Closure \<times> state" where
  "exec_args run [] closure st = (Inr [], closure, st)"
| "exec_args run (ex # rest) closure st =
     (case run ex closure st of
        (Inl e, closure1, st1) \<Rightarrow> (Inl e, closure1, st1)
      | (Inr v, closure1, st1) \<Rightarrow>
          (case exec_args run rest closure1 st1 of
             (Inl e, closure2, st2) \<Rightarrow> (Inl e, closure2, st2)
           | (Inr vs, closure2, st2) \<Rightarrow> (Inr (v # vs), closure2, st2)))"

text \<open>The loop of \<^verbatim>\<open>Compound::Execute\<close>.\<close>

fun exec_stmts :: "executor \<Rightarrow> Statement list \<Rightarrow> Closure \<Rightarrow> state
                  \<Rightarrow> (thrown + unit) \<times> Closure \<times> state" where
  "exec_stmts run [] closure st = (Inr (), closure, st)"
| "exec_stmts run (ex # rest) closure st =
     (case run ex closure st of
        (Inl e, closure1, st1) \<Rightarrow> (Inl e, closure1, st1)
      | (Inr _, closure1, st1) \<Rightarrow> exec_stmts run rest closure1 st1)"

text \<open>
  \<^verbatim>\<open>ClassInstance::Call\<close> on the instance at the address \<open>this\<close>. The closure of the call is
  local: it is dropped when the body returns or throws.
\<close>

definition Call :: "executor \<Rightarrow> nat \<Rightarrow> string \<Rightarrow> ObjectHolder list \<Rightarrow> state
                  \<Rightarrow> (thrown + ObjectHolder) \<times> state" where
  "Call run this method actual_args st =
     (if \<not> HasMethod (cls' (instances st this)) method (length actual_args)
      then (Inl (runtime_error (''There is no such method: '' @ method)), st)
      else (case GetMethod (cls' (instances st this)) method of
              None \<Rightarrow> (Inl null_dereference, st)
            | Some mth \<Rightarrow>
                (case run (body mth)
                        (emplace
                           (foldl (\<lambda>closure (p, a). emplace closure p a) Map.empty
                              (zip (formal_params mth) actual_args))
                           ''self'' (Share (ClassInstance this)))
                        st of
                   (r, _, st1) \<Rightarrow> (r, st1))))"

text \<open>
  The virtual \<^verbatim>\<open>Object::Print(os, context)\<close>: the characters written to \<^verbatim>\<open>os\<close>, and the
  state after the calls of \<^verbatim>\<open>__str__\<close>, which come before the first character is written.
  Printing the result of \<^verbatim>\<open>__str__\<close> can call \<^verbatim>\<open>__str__\<close> again, with no bound known
  beforehand: the second argument is fuel for this chain.

  Modelled from the spec: \<^verbatim>\<open>Print\<close> of \<^verbatim>\<open>Number\<close> and of \<^verbatim>\<open>String\<close> is declared in
  runtime.h; by the spec it "renders" the value (the scenarios print a number in decimal
  and a string as it is). \<^verbatim>\<open>Bool::Print\<close>, \<^verbatim>\<open>Class::Print\<close> and \<^verbatim>\<open>ClassInstance::Print\<close> are in
  runtime.cpp.
\<close>

fun Print_object :: "executor \<Rightarrow> nat \<Rightarrow> Object \<Rightarrow> state \<Rightarrow> (thrown + string) \<times> state" where
  "Print_object run n (Number v) st = (Inr (show_int v), st)"
| "Print_object run n (String v) st = (Inr v, st)"
| "Print_object run n (Bool v) st = (Inr (if v then ''True'' else ''False''), st)"
| "Print_object run n (Class_object c) st = (Inr (''Class '' @ GetName c), st)"
| "Print_object run 0 (ClassInstance this) st = (Inl out_of_fuel, st)"
| "Print_object run (Suc n) (ClassInstance this) st =
     (if HasMethod (cls' (instances st this)) ''__str__'' 0 then
        (case Call run this ''__str__'' [] st of
           (Inl e, st1) \<Rightarrow> (Inl e, st1)
         | (Inr h, st1) \<Rightarrow>
             (case Get h of
                None \<Rightarrow> (Inl assertion_failed, st1)
              | Some ob \<Rightarrow> Print_object run n ob st1))
      else (Inr (show_address this), st))"

text \<open>The loop of \<^verbatim>\<open>Print::Execute\<close>, on the arguments left and \<^verbatim>\<open>is_first\<close>.\<close>

fun print_args :: "executor \<Rightarrow> nat \<Rightarrow> Statement list \<Rightarrow> bool \<Rightarrow> Closure \<Rightarrow> state
                  \<Rightarrow> (thrown + unit) \<times> Closure \<times> state" where
  "print_args run n [] is_first closure st = (Inr (), closure, st)"
| "print_args run n (ex # rest) is_first closure st =
     (case run ex closure (if \<not> is_first then put '' '' st else st) of
        (Inl e, closure1, st1) \<Rightarrow> (Inl e, closure1, st1)
      | (Inr obj, closure1, st1) \<Rightarrow>
          (case Get obj of
             Some ob \<Rightarrow>
               (case Print_object run n ob st1 of
                  (Inl e, st2) \<Rightarrow> (Inl e, closure1, st2)
                | (Inr s, st2) \<Rightarrow> print_args run n rest False closure1 (put s st2))
           | None \<Rightarrow> print_args run n rest False closure1 (put ''None'' st1)))"

definition Equal :: "executor \<Rightarrow> ObjectHolder \<Rightarrow> ObjectHolder \<Rightarrow> state \<Rightarrow> (thrown + bool) \<times> state" where
  "Equal run lhs rhs st =
     (if Get lhs = None \<and> Get rhs = None then (Inr True, st)
      else (case (TryAs_String lhs, TryAs_String rhs) of
              (Some a, Some b) \<Rightarrow> (Inr (a = b), st)
            | _ \<Rightarrow>
                (case (TryAs_Number lhs, TryAs_Number rhs) of
                   (Some a, Some b) \<Rightarrow> (Inr (a = b), st)
                 | _ \<Rightarrow>
                     (case (TryAs_Bool lhs, TryAs_Bool rhs) of
                        (Some a, Some b) \<Rightarrow> (Inr (a = b), st)
                      | _ \<Rightarrow>
                          (case TryAs_ClassInstance lhs of
                             Some a \<Rightarrow>
                               if HasMethod (cls' (instances st a)) ''__eq__'' 1
                               then (case Call run a ''__eq__'' [rhs] st of
                                       (Inl e, st1) \<Rightarrow> (Inl e, st1)
                                     | (Inr v, st1) \<Rightarrow> (Inr (IsTrue v), st1))
                               else (Inl (runtime_error ''logic error in Equal''), st)
                           | None \<Rightarrow> (Inl (runtime_error ''logic error in Equal''), st))))))"

definition Less :: "executor \<Rightarrow> ObjectHolder \<Rightarrow> ObjectHolder \<Rightarrow> state \<Rightarrow> (thrown + bool) \<times> state" where
  "Less run lhs rhs st =
     (if Get lhs \<noteq> None \<and> Get rhs \<noteq> None then
        (case (TryAs_String lhs, TryAs_String rhs) of
           (Some a, Some b) \<Rightarrow> (Inr (a < b), st)
         | _ \<Rightarrow>
             (case (TryAs_Number lhs, TryAs_Number rhs) of
                (Some a, Some b) \<Rightarrow> (Inr (a < b), st)
              | _ \<Rightarrow>
                  (case (TryAs_Bool lhs, TryAs_Bool rhs) of
                     (Some a, Some b) \<Rightarrow> (Inr (a < b), st)
                   | _ \<Rightarrow>
                       (case TryAs_ClassInstance lhs of
                          Some a \<Rightarrow>
                            if HasMethod (cls' (instances st a)) ''__lt__'' 1
                            then (case Call run a ''__lt__'' [rhs] st of
                                    (Inl e, st1) \<Rightarrow> (Inl e, st1)
                                  | (Inr v, st1) \<Rightarrow> (Inr (IsTrue v), st1))
                            else (Inl (runtime_error ''logic_error in Less''), st)
                        | None \<Rightarrow> (Inl (runtime_error ''logic_error in Less''), st)))))
      else (Inl (runtime_error ''logic_error in Less''), st))"

text \<open>
  The six comparators. \<^verbatim>\<open>Greater\<close> and \<^verbatim>\<open>LessOrEqual\<close> call \<^verbatim>\<open>Equal\<close> only when \<^verbatim>\<open>Less\<close> has
  not decided (\<^verbatim>\<open>&&\<close>, \<^verbatim>\<open>||\<close>).
\<close>

fun Compare :: "executor \<Rightarrow> Comparator \<Rightarrow> ObjectHolder \<Rightarrow> ObjectHolder \<Rightarrow> state
                  \<Rightarrow> (thrown + bool) \<times> state" where
  "Compare run Cmp_Equal lhs rhs st = Equal run lhs rhs st"
| "Compare run Cmp_Less lhs rhs st = Less run lhs rhs st"
| "Compare run Cmp_NotEqual lhs rhs st =
     (case Equal run lhs rhs st of
        (Inl e, st1) \<Rightarrow> (Inl e, st1)
      | (Inr b, st1) \<Rightarrow> (Inr (\<not> b), st1))"
| "Compare run Cmp_Greater lhs rhs st =
     (case Less run lhs rhs st of
        (Inl e, st1) \<Rightarrow> (Inl e, st1)
      | (Inr lt, st1) \<Rightarrow>
          if lt then (Inr False, st1)
          else (case Equal run lhs rhs st1 of
                  (Inl e, st2) \<Rightarrow> (Inl e, st2)
                | (Inr eq, st2) \<Rightarrow> (Inr (\<not> eq), st2)))"
| "Compare run Cmp_LessOrEqual lhs rhs st =
     (case Less run lhs rhs st of
        (Inl e, st1) \<Rightarrow> (Inl e, st1)
      | (Inr lt, st1) \<Rightarrow>
          if lt then (Inr True, st1)
          else Equal run lhs rhs st1)"
| "Compare run Cmp_GreaterOrEqual lhs rhs st =
     (case Less run lhs rhs st of
        (Inl e, st1) \<Rightarrow> (Inl e, st1)
      | (Inr lt, st1) \<Rightarrow> (Inr (\<not> lt), st1))"

text \<open>
  The \<^verbatim>\<open>Execute\<close> of each node of the tree. \<open>run\<close> executes a statement of the node, \<open>n\<close>
  is the fuel for printing.

  \<^item> \<^verbatim>\<open>Assignment\<close>: \<^verbatim>\<open>closure[var_]\<close> is bound to a reference before \<^verbatim>\<open>rv_\<close> is executed.
  \<^item> \<^verbatim>\<open>Stringify\<close>: \<^verbatim>\<open>argument_\<close> is executed, and, when the holder is not empty, executed
    again for the object that is printed.
  \<^item> \<^verbatim>\<open>Or\<close>, \<^verbatim>\<open>And\<close>: the right operand of \<^verbatim>\<open>||\<close> and \<^verbatim>\<open>&&\<close> is evaluated only when the
    left one has not decided.
  \<^item> \<^verbatim>\<open>FieldAssignment\<close>: \<^verbatim>\<open>object_\<close> is looked up first; \<^verbatim>\<open>Fields()\<close> through the pointer
    only forms a reference. \<^verbatim>\<open>rv_\<close> is executed next (the right operand of \<^verbatim>\<open>=\<close> comes
    first), and then the field is written: that write is what fails when the object is
    not an instance and the pointer is null.
  \<^item> \<^verbatim>\<open>NewInstance\<close>: \<^verbatim>\<open>self\<close> is bound in the fields to \<^verbatim>\<open>obj_holder\<close>, the owning holder.
  \<^item> \<^verbatim>\<open>MethodBody\<close>: \<^verbatim>\<open>catch (ObjectHolder obj)\<close> catches what \<^verbatim>\<open>Return\<close> throws, nothing
    else.
\<close>

fun Execute_node :: "executor \<Rightarrow> nat \<Rightarrow> Statement \<Rightarrow> Closure \<Rightarrow> state
                  \<Rightarrow> (thrown + ObjectHolder) \<times> Closure \<times> state" where
  "Execute_node run n (NumberConst v) closure st = (Inr (Own (Number v)), closure, st)"
| "Execute_node run n (StringConst v) closure st = (Inr (Own (String v)), closure, st)"
| "Execute_node run n (BoolConst v) closure st = (Inr (Own (Bool v)), closure, st)"
| "Execute_node run n NoneConst closure st = (Inr None_holder, closure, st)"

| "Execute_node run n (Assignment var rv) closure st =
     (case run rv (subscript closure var) st of
        (Inl e, closure1, st1) \<Rightarrow> (Inl e, closure1, st1)
      | (Inr v, closure1, st1) \<Rightarrow> (Inr v, closure1(var \<mapsto> v), st1))"

| "Execute_node run n (VariableValue var_names) closure st =
     (lookup_names st var_names closure None_holder, closure, st)"

| "Execute_node run n (Print args) closure st =
     (case print_args run n args True closure st of
        (Inl e, closure1, st1) \<Rightarrow> (Inl e, closure1, st1)
      | (Inr _, closure1, st1) \<Rightarrow> (Inr None_holder, closure1, put [LF] st1))"

| "Execute_node run n (MethodCall object method args) closure st =
     (case run object closure st of
        (Inl e, closure1, st1) \<Rightarrow> (Inl e, closure1, st1)
      | (Inr obj, closure1, st1) \<Rightarrow>
          (case exec_args run args closure1 st1 of
             (Inl e, closure2, st2) \<Rightarrow> (Inl e, closure2, st2)
           | (Inr actual_args, closure2, st2) \<Rightarrow>
               (case TryAs_ClassInstance obj of
                  None \<Rightarrow> (Inl null_dereference, closure2, st2)
                | Some a \<Rightarrow>
                    (case Call run a method actual_args st2 of
                       (r, st3) \<Rightarrow> (r, closure2, st3)))))"

| "Execute_node run n (Stringify argument) closure st =
     (case run argument closure st of
        (Inl e, closure1, st1) \<Rightarrow> (Inl e, closure1, st1)
      | (Inr obj, closure1, st1) \<Rightarrow>
          (case Get obj of
             None \<Rightarrow> (Inr (Own (String ''None'')), closure1, st1)
           | Some _ \<Rightarrow>
               (case run argument closure1 st1 of
                  (Inl e, closure2, st2) \<Rightarrow> (Inl e, closure2, st2)
                | (Inr obj2, closure2, st2) \<Rightarrow>
                    (case Get obj2 of
                       None \<Rightarrow> (Inl assertion_failed, closure2, st2)
                     | Some ob \<Rightarrow>
                         (case Print_object run n ob st2 of
                            (Inl e, st3) \<Rightarrow> (Inl e, closure2, st3)
                          | (Inr ss, st3) \<Rightarrow> (Inr (Own (String ss)), closure2, st3))))))"

| "Execute_node run n (Add lhs rhs) closure st =
     (case run lhs closure st of
        (Inl e, closure1, st1) \<Rightarrow> (Inl e, closure1, st1)
      | (Inr l, closure1, st1) \<Rightarrow>
          (case run rhs closure1 st1 of
             (Inl e, closure2, st2) \<Rightarrow> (Inl e, closure2, st2)
           | (Inr r, closure2, st2) \<Rightarrow>
               (case (TryAs_Number l, TryAs_Number r) of
                  (Some a, Some b) \<Rightarrow> (Inr (Own (Number (a + b))), closure2, st2)
                | _ \<Rightarrow>
                    (case (TryAs_String l, TryAs_String r) of
                       (Some a, Some b) \<Rightarrow> (Inr (Own (String (a @ b))), closure2, st2)
                     | _ \<Rightarrow>
                         (case TryAs_ClassInstance l of
                            Some a \<Rightarrow>
                              if HasMethod (cls' (instances st2 a)) ''__add__'' 1
                              then (case Call run a ''__add__'' [r] st2 of
                                      (res, st3) \<Rightarrow> (res, closure2, st3))
                              else (Inl (runtime_error ''no Add operation for such data types''),
                                    closure2, st2)
                          | None \<Rightarrow>
                              (Inl (runtime_error ''no Add operation for such data types''),
                               closure2, st2))))))"

| "Execute_node run n (Sub lhs rhs) closure st =
     (case run lhs closure st of
        (Inl e, closure1, st1) \<Rightarrow> (Inl e, closure1, st1)
      | (Inr l, closure1, st1) \<Rightarrow>
          (case run rhs closure1 st1 of
             (Inl e, closure2, st2) \<Rightarrow> (Inl e, closure2, st2)
           | (Inr r, closure2, st2) \<Rightarrow>
               (case (TryAs_Number l, TryAs_Number r) of
                  (Some a, Some b) \<Rightarrow> (Inr (Own (Number (a - b))), closure2, st2)
                | _ \<Rightarrow> (Inl (runtime_error ''no Sub operation for such data types''),
                        closure2, st2))))"

| "Execute_node run n (Mult lhs rhs) closure st =
     (case run lhs closure st of
        (Inl e, closure1, st1) \<Rightarrow> (Inl e, closure1, st1)
      | (Inr l, closure1, st1) \<Rightarrow>
          (case run rhs closure1 st1 of
             (Inl e, closure2, st2) \<Rightarrow> (Inl e, closure2, st2)
           | (Inr r, closure2, st2) \<Rightarrow>
               (case (TryAs_Number l, TryAs_Number r) of
                  (Some a, Some b) \<Rightarrow> (Inr (Own (Number (a * b))), closure2, st2)
                | _ \<Rightarrow> (Inl (runtime_error ''no Mult operation for such data types''),
                        closure2, st2))))"

| "Execute_node run n (Div lhs rhs) closure st =
     (case run lhs closure st of
        (Inl e, closure1, st1) \<Rightarrow> (Inl e, closure1, st1)
      | (Inr l, closure1, st1) \<Rightarrow>
          (case run rhs closure1 st1 of
             (Inl e, closure2, st2) \<Rightarrow> (Inl e, closure2, st2)
           | (Inr r, closure2, st2) \<Rightarrow>
               (case (TryAs_Number l, TryAs_Number r) of
                  (Some a, Some b) \<Rightarrow>
                    if b = 0 then (Inl (runtime_error ''Error div to null''), closure2, st2)
                    else (Inr (Own (Number (cpp_div a b))), closure2, st2)
                | _ \<Rightarrow> (Inl (runtime_error ''no Div operation for such data types''),
                        closure2, st2))))"

| "Execute_node run n (Compound args) closure st =
     (case exec_stmts run args closure st of
        (Inl e, closure1, st1) \<Rightarrow> (Inl e, closure1, st1)
      | (Inr _, closure1, st1) \<Rightarrow> (Inr None_holder, closure1, st1))"

| "Execute_node run n (Return statement) closure st =
     (case run statement closure st of
        (Inl e, closure1, st1) \<Rightarrow> (Inl e, closure1, st1)
      | (Inr v, closure1, st1) \<Rightarrow> (Inl (thrown_ObjectHolder v), closure1, st1))"

| "Execute_node run n (ClassDefinition cls) closure st =
     (case TryAs_Class cls of
        None \<Rightarrow> (Inl null_dereference, closure, st)
      | Some c \<Rightarrow> (Inr cls, closure(GetName c \<mapsto> cls), st))"

| "Execute_node run n (FieldAssignment object field_name rv) closure st =
     (case lookup_names st object closure None_holder of
        Inl e \<Rightarrow> (Inl e, closure, st)
      | Inr h \<Rightarrow>
          (case run rv closure st of
             (Inl e, closure1, st1) \<Rightarrow> (Inl e, closure1, st1)
           | (Inr v, closure1, st1) \<Rightarrow>
               (case TryAs_ClassInstance h of
                  None \<Rightarrow> (Inl null_dereference, closure1, st1)
                | Some a \<Rightarrow> (Inr v, closure1, set_field st1 a field_name v))))"

| "Execute_node run n (IfElse condition if_body else_body) closure st =
     (case run condition closure st of
        (Inl e, closure1, st1) \<Rightarrow> (Inl e, closure1, st1)
      | (Inr c, closure1, st1) \<Rightarrow>
          if IsTrue c then run if_body closure1 st1
          else (case else_body of
                  Some eb \<Rightarrow> run eb closure1 st1
                | None \<Rightarrow> (Inr None_holder, closure1, st1)))"

| "Execute_node run n (Or lhs rhs) closure st =
     (case run lhs closure st of
        (Inl e, closure1, st1) \<Rightarrow> (Inl e, closure1, st1)
      | (Inr l, closure1, st1) \<Rightarrow>
          if IsTrue l then (Inr (Own (Bool True)), closure1, st1)
          else (case run rhs closure1 st1 of
                  (Inl e, closure2, st2) \<Rightarrow> (Inl e, closure2, st2)
                | (Inr r, closure2, st2) \<Rightarrow> (Inr (Own (Bool (IsTrue r))), closure2, st2)))"

| "Execute_node run n (And lhs rhs) closure st =
     (case run lhs closure st of
        (Inl e, closure1, st1) \<Rightarrow> (Inl e, closure1, st1)
      | (Inr l, closure1, st1) \<Rightarrow>
          if \<not> IsTrue l then (Inr (Own (Bool False)), closure1, st1)
          else (case run rhs closure1 st1 of
                  (Inl e, closure2, st2) \<Rightarrow> (Inl e, closure2, st2)
                | (Inr r, closure2, st2) \<Rightarrow> (Inr (Own (Bool (IsTrue r))), closure2, st2)))"

| "Execute_node run n (Not_stmt argument) closure st =
     (case run argument closure st of
        (Inl e, closure1, st1) \<Rightarrow> (Inl e, closure1, st1)
      | (Inr v, closure1, st1) \<Rightarrow> (Inr (Own (Bool (\<not> IsTrue v))), closure1, st1))"

| "Execute_node run n (Comparison cmp lhs rhs) closure st =
     (case run lhs closure st of
        (Inl e, closure1, st1) \<Rightarrow> (Inl e, closure1, st1)
      | (Inr l, closure1, st1) \<Rightarrow>
          (case run rhs closure1 st1 of
             (Inl e, closure2, st2) \<Rightarrow> (Inl e, closure2, st2)
           | (Inr r, closure2, st2) \<Rightarrow>
               (case Compare run cmp l r st2 of
                  (Inl e, st3) \<Rightarrow> (Inl e, closure2, st3)
                | (Inr res, st3) \<Rightarrow> (Inr (Own (Bool res)), closure2, st3))))"

| "Execute_node run n (NewInstance cls args) closure st =
     (case new_ClassInstance cls st of
        (a, st0) \<Rightarrow>
          (case set_field st0 a ''self'' (Own (ClassInstance a)) of
             st1 \<Rightarrow>
               if HasMethod cls ''__init__'' (length args) then
                 (case exec_args run args closure st1 of
                    (Inl e, closure2, st2) \<Rightarrow> (Inl e, closure2, st2)
                  | (Inr actual_args, closure2, st2) \<Rightarrow>
                      (case Call run a ''__init__'' actual_args st2 of
                         (Inl e, st3) \<Rightarrow> (Inl e, closure2, st3)
                       | (Inr _, st3) \<Rightarrow> (Inr (Own (ClassInstance a)), closure2, st3)))
               else (Inr (Own (ClassInstance a)), closure, st1)))"

| "Execute_node run n (MethodBody body_stmt) closure st =
     (case run body_stmt closure st of
        (Inl (thrown_ObjectHolder obj), closure1, st1) \<Rightarrow> (Inr obj, closure1, st1)
      | (Inl e, closure1, st1) \<Rightarrow> (Inl e, closure1, st1)
      | (Inr _, closure1, st1) \<Rightarrow> (Inr None_holder, closure1, st1))"

text \<open>\<^verbatim>\<open>Execute\<close> with fuel.\<close>

primrec Execute :: "nat \<Rightarrow> executor" where
  "Execute 0 = (\<lambda>stmt closure st. (Inl out_of_fuel, closure, st))"
| "Execute (Suc n) = Execute_node (Execute n) n"


section \<open>Notions used in the properties\<close>

subsection \<open>A string literal with no closing quote\<close>

text \<open>
  Whether the quote character \<open>start\<close> occurs in the rest of the line other than
  directly after a backslash. The second argument is the character before the rest, if
  any. A literal is unterminated when there is no such occurrence.
\<close>

fun quote_after :: "char \<Rightarrow> char option \<Rightarrow> string \<Rightarrow> bool" where
  "quote_after start prev [] = False"
| "quote_after start prev (c # cs) =
     ((c = start \<and> prev \<noteq> Some backslash) \<or> quote_after start (Some c) cs)"

definition unterminated :: "char \<Rightarrow> string \<Rightarrow> bool" where
  "unterminated start lit = (\<not> quote_after start None lit)"

text \<open>
  The other reading of "unescaped", in which a backslash escapes whatever character
  follows it: whether the rest of the line, read as pairs and single characters, holds
  the quote character as a single character.
\<close>

fun closed_by_pairs :: "char \<Rightarrow> string \<Rightarrow> bool" where
  "closed_by_pairs start [] = False"
| "closed_by_pairs start [c] = (c \<noteq> backslash \<and> c = start)"
| "closed_by_pairs start (c # d # cs) =
     (if c = backslash then closed_by_pairs start cs
      else c = start \<or> closed_by_pairs start (d # cs))"

subsection \<open>The state at the start of a program\<close>

text \<open>
  The driver starts \<^verbatim>\<open>Execute\<close> on an empty global closure and a fresh context: nothing
  has been written and no instance has been constructed (an address not yet in use holds
  an instance of a class with no name and no methods).
\<close>

definition initial_state :: state where
  "initial_state =
     \<lparr>instances = (\<lambda>_. \<lparr>cls' = Class [] [] None, closure' = Map.empty\<rparr>),
      next_instance = 0, output_stream = []\<rparr>"

subsection \<open>The ancestor chain of a class\<close>

text \<open>
  The classes that the loop of \<^verbatim>\<open>GetMethod\<close> can visit, and, in the words of the
  specification, whether a method of a given name and arity is found along them.
\<close>

fun ancestor_chain :: "Class \<Rightarrow> Class list" where
  "ancestor_chain (Class nm ms p) =
     Class nm ms p # (case p of None \<Rightarrow> [] | Some c \<Rightarrow> ancestor_chain c)"

definition method_along_chain :: "Class \<Rightarrow> string \<Rightarrow> nat \<Rightarrow> bool" where
  "method_along_chain cls method argument_count =
     (\<exists>c \<in> set (ancestor_chain cls). \<exists>m \<in> set (GetMethods c).
        name m = method \<and> length (formal_params m) = argument_count)"

subsection \<open>The names a statement can bind in the closure it is executed in\<close>

text \<open>
  Only \<^verbatim>\<open>Assignment\<close> and \<^verbatim>\<open>ClassDefinition\<close> write to the closure they are given; every
  other node passes it on to the statements it executes. The bodies of methods run in
  the local closure of \<^verbatim>\<open>Call\<close>.
\<close>

fun assigned :: "Statement \<Rightarrow> string set" where
  "assigned (NumberConst v) = {}"
| "assigned (StringConst v) = {}"
| "assigned (BoolConst v) = {}"
| "assigned NoneConst = {}"
| "assigned (Assignment var rv) = insert var (assigned rv)"
| "assigned (VariableValue var_names) = {}"
| "assigned (Print args) = (\<Union>ex \<in> set args. assigned ex)"
| "assigned (MethodCall object method args) = assigned object \<union> (\<Union>ex \<in> set args. assigned ex)"
| "assigned (Stringify argument) = assigned argument"
| "assigned (Add lhs rhs) = assigned lhs \<union> assigned rhs"
| "assigned (Sub lhs rhs) = assigned lhs \<union> assigned rhs"
| "assigned (Mult lhs rhs) = assigned lhs \<union> assigned rhs"
| "assigned (Div lhs rhs) = assigned lhs \<union> assigned rhs"
| "assigned (Compound args) = (\<Union>ex \<in> set args. assigned ex)"
| "assigned (Return statement) = assigned statement"
| "assigned (ClassDefinition cls) =
     (case TryAs_Class cls of None \<Rightarrow> {} | Some c \<Rightarrow> {GetName c})"
| "assigned (FieldAssignment object field_name rv) = assigned rv"
| "assigned (IfElse condition if_body else_body) =
     assigned condition \<union> assigned if_body
       \<union> (case else_body of None \<Rightarrow> {} | Some eb \<Rightarrow> assigned eb)"
| "assigned (Or lhs rhs) = assigned lhs \<union> assigned rhs"
| "assigned (And lhs rhs) = assigned lhs \<union> assigned rhs"
| "assigned (Not_stmt argument) = assigned argument"
| "assigned (Comparison cmp lhs rhs) = assigned lhs \<union> assigned rhs"
| "assigned (NewInstance cls args) = (\<Union>ex \<in> set args. assigned ex)"
| "assigned (MethodBody body_stmt) = assigned body_stmt"

text \<open>
  The state that \<^verbatim>\<open>NewInstance::Execute\<close> has built when it tests for \<^verbatim>\<open>__init__\<close>: the new
  object is at the next free address, its class is the one given and its fields hold
  \<^verbatim>\<open>self\<close> only, bound to the owning holder.
\<close>

definition constructed :: "Class \<Rightarrow> state \<Rightarrow> state" where
  "constructed cls st =
     st\<lparr>instances := (instances st)
           (next_instance st :=
              \<lparr>cls' = cls,
               closure' = [''self'' \<mapsto> Own (ClassInstance (next_instance st))]\<rparr>),
        next_instance := Suc (next_instance st)\<rparr>"

text \<open>Two closures that differ at most on a set of names.\<close>

definition agree_outside :: "string set \<Rightarrow> Closure \<Rightarrow> Closure \<Rightarrow> bool" where
  "agree_outside X c c1 = (\<forall>x. x \<notin> X \<longrightarrow> c1 x = c x)"

text \<open>
  An executor that binds, in the closure it is given, no name but those its statement
  assigns.
\<close>

definition keeps_frame :: "executor \<Rightarrow> bool" where
  "keeps_frame run =
     (\<forall>s c st. agree_outside (assigned s) c (fst (snd (run s c st))))"

subsection \<open>Statements that assign no field named \<^verbatim>\<open>self\<close>\<close>

text \<open>
  A statement with no \<^verbatim>\<open>FieldAssignment\<close> to the field name \<^verbatim>\<open>self\<close>, neither in itself
  nor in a method of a class it instantiates (or of an ancestor of such a class).
\<close>

fun no_self_field :: "Statement \<Rightarrow> bool"
  and class_no_self_field :: "Class \<Rightarrow> bool"
  and method_no_self_field :: "Method \<Rightarrow> bool"
where
  "no_self_field (NumberConst v) = True"
| "no_self_field (StringConst v) = True"
| "no_self_field (BoolConst v) = True"
| "no_self_field NoneConst = True"
| "no_self_field (Assignment var rv) = no_self_field rv"
| "no_self_field (VariableValue var_names) = True"
| "no_self_field (Print args) = (\<forall>ex \<in> set args. no_self_field ex)"
| "no_self_field (MethodCall object method args) =
     (no_self_field object \<and> (\<forall>ex \<in> set args. no_self_field ex))"
| "no_self_field (Stringify argument) = no_self_field argument"
| "no_self_field (Add lhs rhs) = (no_self_field lhs \<and> no_self_field rhs)"
| "no_self_field (Sub lhs rhs) = (no_self_field lhs \<and> no_self_field rhs)"
| "no_self_field (Mult lhs rhs) = (no_self_field lhs \<and> no_self_field rhs)"
| "no_self_field (Div lhs rhs) = (no_self_field lhs \<and> no_self_field rhs)"
| "no_self_field (Compound args) = (\<forall>ex \<in> set args. no_self_field ex)"
| "no_self_field (Return statement) = no_self_field statement"
| "no_self_field (ClassDefinition cls) = True"
| "no_self_field (FieldAssignment object field_name rv) =
     (field_name \<noteq> ''self'' \<and> no_self_field rv)"
| "no_self_field (IfElse condition if_body else_body) =
     (no_self_field condition \<and> no_self_field if_body
        \<and> (case else_body of None \<Rightarrow> True | Some eb \<Rightarrow> no_self_field eb))"
| "no_self_field (Or lhs rhs) = (no_self_field lhs \<and> no_self_field rhs)"
| "no_self_field (And lhs rhs) = (no_self_field lhs \<and> no_self_field rhs)"
| "no_self_field (Not_stmt argument) = no_self_field argument"
| "no_self_field (Comparison cmp lhs rhs) = (no_self_field lhs \<and> no_self_field rhs)"
| "no_self_field (NewInstance cls args) =
     (class_no_self_field cls \<and> (\<forall>ex \<in> set args. no_self_field ex))"
| "no_self_field (MethodBody body_stmt) = no_self_field body_stmt"
| "class_no_self_field (Class nm ms p) =
     ((\<forall>m \<in> set ms. method_no_self_field m)
        \<and> (case p of None \<Rightarrow> True | Some c \<Rightarrow> class_no_self_field c))"
| "method_no_self_field (Method nm ps b) = no_self_field b"

text \<open>
  The invariant on the store: the class of every object holds no assignment to a field
  named \<^verbatim>\<open>self\<close>, and the fields of every instance constructed so far bind \<^verbatim>\<open>self\<close> to
  the owning holder of that instance.
\<close>

definition self_bound :: "state \<Rightarrow> bool" where
  "self_bound st =
     ((\<forall>a. class_no_self_field (cls' (instances st a)))
      \<and> (\<forall>a < next_instance st. Fields st a ''self'' = Some (Own (ClassInstance a))))"

text \<open>An executor that keeps the invariant, on the statements that assign no such field.\<close>

definition keeps_self :: "executor \<Rightarrow> bool" where
  "keeps_self run =
     (\<forall>s c st. no_self_field s \<longrightarrow> self_bound st \<longrightarrow> self_bound (snd (snd (run s c st))))"

subsection \<open>Example classes\<close>

text \<open>
  \<^verbatim>\<open>class Point:\<close> with \<^verbatim>\<open>def __init__(x): self.x = x\<close>.
\<close>

definition Point :: Class where
  "Point = new_Class ''Point''
     [Method ''__init__'' [''x'']
        (MethodBody (Compound [FieldAssignment [''self''] ''x'' (VariableValue [''x''])]))]
     None"

text \<open>
  \<^verbatim>\<open>class Counter:\<close> with \<^verbatim>\<open>def __init__(): self.n = 0\<close> and
  \<^verbatim>\<open>def inc(): self.n = self.n + 1; return self.n\<close>.
\<close>

definition Counter :: Class where
  "Counter = new_Class ''Counter''
     [Method ''inc'' []
        (MethodBody (Compound
           [FieldAssignment [''self''] ''n''
              (Add (VariableValue [''self'', ''n'']) (NumberConst 1)),
            Return (VariableValue [''self'', ''n''])])),
      Method ''__init__'' []
        (MethodBody (Compound [FieldAssignment [''self''] ''n'' (NumberConst 0)]))]
     None"

text \<open>
  \<^verbatim>\<open>c = Counter()\<close>, \<^verbatim>\<open>s = c.inc()\<close>, \<^verbatim>\<open>c.m = 3\<close>.
\<close>

definition uses_counter :: Statement where
  "uses_counter =
     Compound
       [Assignment ''c'' (NewInstance Counter []),
        Assignment ''s'' (MethodCall (VariableValue [''c'']) ''inc'' []),
        FieldAssignment [''c''] ''m'' (NumberConst 3)]"

section \<open>Properties of the lexer\<close>

subsection \<open>Blank lines and comment lines\<close>

lemma lex_line_blank:
  "snd (RemoveSpaceLeft line) = [] \<Longrightarrow> lex_line line s = Inr s"
  by (cases "RemoveSpaceLeft line") (simp add: lex_line_def)

text \<open>
  Claim C2: a line that is empty or begins with \<^verbatim>\<open>#\<close> once its leading spaces are
  stripped is skipped entirely, whatever its own indentation: no token is emitted for it
  and the recorded indentation is left as it was.

  The constructor does so for the empty view (\<open>lex_line_blank\<close>), and the test
  \<^verbatim>\<open>!tokens_of_current_line.empty()\<close> keeps the \<^verbatim>\<open>Newline\<close> away from a line that gave no
  token. A comment line is not caught by the \<^verbatim>\<open>continue\<close>, though: its indentation is
  compared and recorded first. After \<^verbatim>\<open>x = 1\<close>, the line \<^verbatim>\<open>  # c\<close> emits \<^verbatim>\<open>Indent\<close> and
  \<^verbatim>\<open>Newline\<close> and sets \<^verbatim>\<open>prev_indent\<close> to 2, so the next line emits a \<^verbatim>\<open>Dedent\<close>; and a
  comment behind an odd number of spaces throws.
\<close>

theorem C2_comment_line_not_skipped:
  "lex_line ''  # c'' \<lparr>prev_indent = 0, tokens = [Tok_Id ''x'', Tok_Newline]\<rparr>
     = Inr \<lparr>prev_indent = 2,
            tokens = [Tok_Id ''x'', Tok_Newline, Tok_Indent, Tok_Newline]\<rparr>
   \<and> Lexer (''x = 1'' @ [LF] @ ''  # c'' @ [LF] @ ''y = 2'' @ [LF])
     = Inr [Tok_Id ''x'', Tok_Char CHR ''='', Tok_Number 1, Tok_Newline,
            Tok_Indent, Tok_Newline,
            Tok_Dedent, Tok_Id ''y'', Tok_Char CHR ''='', Tok_Number 2, Tok_Newline, Tok_Eof]
   \<and> Lexer (''x = 1'' @ [LF] @ '' # c'' @ [LF]) = Inl (LexerError ''Error of indent'')"
  by code_simp

subsection \<open>Escapes in string literals\<close>

text \<open>
  Claim C4, as stated: every escape, also an unknown one and \<^verbatim>\<open>\\\<close>, is consumed as a
  pair and contributes one character, an unknown escape the character after the
  backslash. Counterexample: the literals \<^verbatim>\<open>"\q"\<close> and \<^verbatim>\<open>"\\n"\<close>. The first has the two
  characters backslash and \<^verbatim>\<open>q\<close> as its value, not \<^verbatim>\<open>q\<close> alone; in the second the first
  backslash stands for itself and the second one starts the escape \<^verbatim>\<open>\n\<close>.
\<close>

theorem C4_escape_counterexample:
  "SplitTokenString [dquote, backslash, CHR ''q'', dquote]
     = Inr (Some (Tok_String [backslash, CHR ''q''], []))
   \<and> SplitTokenString [dquote, backslash, CHR ''q'', dquote]
     \<noteq> Inr (Some (Tok_String [CHR ''q''], []))
   \<and> SplitTokenString [dquote, backslash, backslash, CHR ''n'', dquote]
     = Inr (Some (Tok_String [backslash, LF], []))
   \<and> SplitTokenString [dquote, backslash, backslash, CHR ''n'', dquote]
     \<noteq> Inr (Some (Tok_String [backslash, CHR ''n''], []))"
  by (simp add: SplitTokenString_def symbols_range_def symbols_for_backslash_shielding_def
      append_escaped_def backslash_def dquote_def squote_def LF_def TAB_def)

text \<open>
  Claim C4, amended: in a string literal \<^verbatim>\<open>\n\<close> becomes LF, \<^verbatim>\<open>\t\<close> becomes TAB, \<^verbatim>\<open>\"\<close> a
  double quote and \<^verbatim>\<open>\'\<close> a single quote; the backslash and the character after it are
  consumed together and add one character to the value. A backslash before any other
  character (another backslash included), or at the end of the line, adds the backslash
  itself and is consumed alone: the character after it is scanned next, as any
  character of the literal is.
\<close>

theorem C4_escape_decoding:
  "scan_string start (backslash # CHR ''n'' # rest) v = scan_string start rest (v @ [LF])
   \<and> scan_string start (backslash # CHR ''t'' # rest) v = scan_string start rest (v @ [TAB])
   \<and> scan_string start (backslash # dquote # rest) v = scan_string start rest (v @ [dquote])
   \<and> scan_string start (backslash # squote # rest) v = scan_string start rest (v @ [squote])
   \<and> (d \<notin> set [dquote, squote, CHR ''n'', CHR ''t''] \<longrightarrow>
        scan_string start (backslash # d # rest) v
          = scan_string start (d # rest) (v @ [backslash]))
   \<and> scan_string start [backslash] v = (v @ [backslash], [])"
  by (simp add: symbols_for_backslash_shielding_def append_escaped_def backslash_def
      dquote_def squote_def LF_def TAB_def)

theorem C4_escape_decoding_witness:
  "CHR ''q'' \<notin> set [dquote, squote, CHR ''n'', CHR ''t'']
   \<and> scan_string dquote (backslash # CHR ''q'' # [dquote]) ''a''
     = ([CHR ''a'', backslash, CHR ''q''], [])
   \<and> scan_string dquote (backslash # CHR ''n'' # [dquote]) ''a'' = ([CHR ''a'', LF], [])"
  using C4_escape_decoding [of dquote "[dquote]" "''a''" "CHR ''q''"]
  by (simp add: dquote_def squote_def backslash_def)

subsection \<open>Unterminated string literals\<close>

lemma take_differs:
  "w \<noteq> [] \<Longrightarrow> hd w \<noteq> start \<Longrightarrow> take (length w) (start # lit) \<noteq> w"
  by (cases w) auto

lemma GetKeyWords_hd: "w \<in> set GetKeyWords \<Longrightarrow> w \<noteq> [] \<and> hd w \<notin> set symbols_range"
  by (auto simp: GetKeyWords_def key_words_for_tokens_def symbols_range_def dquote_def squote_def)

lemma GetSymbolsForComparison_hd:
  "w \<in> set GetSymbolsForComparison \<Longrightarrow> w \<noteq> [] \<and> hd w \<notin> set symbols_range"
  by (auto simp: GetSymbolsForComparison_def symbols_for_comparison_def symbols_range_def
      dquote_def squote_def)

lemma no_keyword_at_quote:
  assumes "start \<in> set symbols_range"
  shows "SplitTokenKeyWord (start # lit) = Inr None"
proof -
  have "find (\<lambda>key_word. length (start # lit) \<ge> length key_word
           \<and> take (length key_word) (start # lit) = key_word) GetKeyWords = None"
    unfolding find_None_iff using assms GetKeyWords_hd take_differs by metis
  then show ?thesis by (simp add: SplitTokenKeyWord_def)
qed

lemma no_comparison_at_quote:
  assumes "start \<in> set symbols_range"
  shows "SplitTokenComparison (start # lit) = Inr None"
proof -
  have "find (\<lambda>comparison. length (start # lit) \<ge> length comparison
           \<and> take (length comparison) (start # lit) = comparison)
          GetSymbolsForComparison = None"
    unfolding find_None_iff using assms GetSymbolsForComparison_hd take_differs by metis
  then show ?thesis by (simp add: SplitTokenComparison_def)
qed

lemma no_char_at_quote:
  "start \<in> set symbols_range \<Longrightarrow> SplitTokenChar (start # lit) = Inr None"
  by (auto simp: SplitTokenChar_def chars_def symbols_range_def dquote_def squote_def)

lemma no_number_at_quote:
  "start \<in> set symbols_range \<Longrightarrow> SplitTokenNumber (start # lit) = Inr None"
  by (auto simp: SplitTokenNumber_def isdigit_def symbols_range_def dquote_def squote_def)

lemma scan_string_no_quote:
  "start \<notin> set lit \<Longrightarrow> snd (scan_string start lit v) = []"
proof (induction start lit v rule: scan_string.induct)
  case (1 start v)
  show ?case by simp
next
  case (2 start c cs v)
  then show ?case by (cases cs) auto
qed

lemma scan_string_plain:
  "start \<notin> set lit \<Longrightarrow> backslash \<notin> set lit \<Longrightarrow> scan_string start lit v = (v @ lit, [])"
  by (induction lit arbitrary: v) auto

lemma scan_string_unterminated:
  "start \<in> set symbols_for_backslash_shielding
     \<Longrightarrow> \<not> quote_after start prev lit
     \<Longrightarrow> (prev = Some backslash \<longrightarrow>
            lit = [] \<or> hd lit \<notin> set symbols_for_backslash_shielding)
     \<Longrightarrow> snd (scan_string start lit v) = []"
proof (induction start lit v arbitrary: prev rule: scan_string.induct)
  case (1 start v)
  show ?case by simp
next
  case (2 start c cs v)
  note sh = "2.prems"(1) and nq = "2.prems"(2) and pv = "2.prems"(3)
  have bs: "backslash \<notin> set symbols_for_backslash_shielding"
    by (simp add: symbols_for_backslash_shielding_def backslash_def dquote_def squote_def)
  show ?case
  proof (cases "c = backslash")
    case True
    show ?thesis
    proof (cases cs)
      case Nil
      with True show ?thesis by simp
    next
      case (Cons d ds)
      show ?thesis
      proof (cases "d \<in> set symbols_for_backslash_shielding")
        case s: True
        from nq Cons have q: "\<not> quote_after start (Some d) ds" by simp
        have "d \<noteq> backslash" using s bs by auto
        then have k: "Some d = Some backslash \<longrightarrow>
            ds = [] \<or> hd ds \<notin> set symbols_for_backslash_shielding" by simp
        from "2.IH"(2) [OF True Cons s sh q k] True Cons s show ?thesis by simp
      next
        case s: False
        from nq Cons True have q: "\<not> quote_after start (Some c) cs" by simp
        from Cons s have k: "Some c = Some backslash \<longrightarrow>
            cs = [] \<or> hd cs \<notin> set symbols_for_backslash_shielding" by simp
        from "2.IH"(3) [OF True Cons s sh q k] True Cons s show ?thesis by simp
      qed
    qed
  next
    case False
    show ?thesis
    proof (cases "c = start")
      case True
      from nq True have "prev = Some backslash" by auto
      with pv have "c \<notin> set symbols_for_backslash_shielding" by simp
      with True sh have False by blast
      then show ?thesis ..
    next
      case ns: False
      from nq have q: "\<not> quote_after start (Some c) cs" by simp
      from False have k: "Some c = Some backslash \<longrightarrow>
            cs = [] \<or> hd cs \<notin> set symbols_for_backslash_shielding" by simp
      from "2.IH"(4) [OF False ns sh q k] False ns show ?thesis by simp
    qed
  qed
qed

lemma no_quote_unterminated: "start \<notin> set lit \<Longrightarrow> \<not> quote_after start prev lit"
  by (induction lit arbitrary: prev) auto

lemma quote_after_closed_by_pairs:
  "start \<noteq> backslash \<Longrightarrow> quote_after start prev lit \<Longrightarrow> closed_by_pairs start lit"
proof (induction start lit arbitrary: prev rule: closed_by_pairs.induct)
  case (1 start)
  then show ?case by simp
next
  case (2 start c)
  then show ?case by auto
next
  case (3 start c d cs)
  show ?case
  proof (cases "c = backslash")
    case True
    with "3.prems" have "quote_after start (Some d) cs" by auto
    from "3.IH"(1) [OF True "3.prems"(1) this] True show ?thesis by simp
  next
    case False
    show ?thesis
    proof (cases "c = start")
      case True
      with False show ?thesis by simp
    next
      case ns: False
      with "3.prems" have "quote_after start (Some c) (d # cs)" by auto
      from "3.IH"(2) [OF False "3.prems"(1) this] False show ?thesis by simp
    qed
  qed
qed

text \<open>
  Claim C7, as stated: a string literal with no closing quote before the end of the
  line raises a lexer error. Counterexample: the line \<^verbatim>\<open>x = "abc\<close> is lexed with no error,
  into the tokens of \<^verbatim>\<open>x = "abc"\<close>.
\<close>

theorem C7_unterminated_counterexample:
  "Lexer (''x = '' @ [dquote] @ ''abc'')
     = Inr [Tok_Id ''x'', Tok_Char CHR ''='', Tok_String ''abc'', Tok_Newline, Tok_Eof]"
  by code_simp

text \<open>
  Claim C7, amended: a string literal never raises a lexer error. On a view that begins
  with a quote \<^verbatim>\<open>SplitTokenLeft\<close> returns a \<^verbatim>\<open>String\<close> token, closed or not. When the literal
  is unterminated (the quote does not occur again, or only directly after a backslash)
  the token takes the whole rest of the line: the view is left empty and the value is the
  decoded rest. This covers every literal that is unterminated when each backslash is
  read as escaping the character after it, and every literal in which the quote does
  not occur again; with no backslash either, the value is the rest as it stands.
\<close>

theorem C7_string_never_fails:
  assumes "start \<in> set symbols_range"
  shows "SplitTokenLeft (start # lit)
           = Inr (Some (Tok_String (fst (scan_string start lit []))),
                  snd (scan_string start lit []))
         \<and> (unterminated start lit \<longrightarrow> snd (scan_string start lit []) = [])
         \<and> (start \<notin> set lit \<longrightarrow> unterminated start lit)
         \<and> (\<not> closed_by_pairs start lit \<longrightarrow> unterminated start lit)
         \<and> (start \<notin> set lit \<and> backslash \<notin> set lit
              \<longrightarrow> fst (scan_string start lit []) = lit)"
proof -
  have sh: "start \<in> set symbols_for_backslash_shielding"
    using assms by (auto simp: symbols_range_def symbols_for_backslash_shielding_def)
  have "start \<noteq> CHR ''#''"
    using assms by (auto simp: symbols_range_def dquote_def squote_def)
  then have 1: "SplitTokenLeft (start # lit)
           = Inr (Some (Tok_String (fst (scan_string start lit []))),
                  snd (scan_string start lit []))"
    using assms
    by (simp add: SplitTokenLeft_def GetSplitersOfTokens_def no_keyword_at_quote
        no_comparison_at_quote no_char_at_quote no_number_at_quote SplitTokenString_def
        split: prod.splits)
  have 2: "unterminated start lit \<longrightarrow> snd (scan_string start lit []) = []"
    unfolding unterminated_def
    using scan_string_unterminated [OF sh, of None lit "[]"] by simp
  have 3: "start \<notin> set lit \<longrightarrow> unterminated start lit"
    unfolding unterminated_def by (simp add: no_quote_unterminated)
  have 4: "start \<notin> set lit \<and> backslash \<notin> set lit
              \<longrightarrow> fst (scan_string start lit []) = lit"
    by (simp add: scan_string_plain)
  have "start \<noteq> backslash"
    using assms by (auto simp: symbols_range_def dquote_def squote_def backslash_def)
  then have 5: "\<not> closed_by_pairs start lit \<longrightarrow> unterminated start lit"
    unfolding unterminated_def using quote_after_closed_by_pairs by blast
  from 1 2 3 4 5 show ?thesis by (simp only: simp_thms)
qed

theorem C7_string_never_fails_witness:
  "dquote \<in> set symbols_range
   \<and> unterminated dquote (''abc'' @ [backslash, dquote])
   \<and> SplitTokenLeft (dquote # ''abc'' @ [backslash, dquote])
       = Inr (Some (Tok_String (''abc'' @ [dquote])), [])
   \<and> dquote \<notin> set ''abc'' \<and> backslash \<notin> set ''abc''
   \<and> \<not> closed_by_pairs dquote ''abc''
   \<and> unterminated dquote ''abc''
   \<and> SplitTokenLeft (dquote # ''abc'') = Inr (Some (Tok_String ''abc''), [])"
proof -
  have h: "dquote \<in> set symbols_range" by (simp add: symbols_range_def)
  have u: "unterminated dquote (''abc'' @ [backslash, dquote])"
    by (simp add: unterminated_def dquote_def backslash_def)
  have v: "fst (scan_string dquote (''abc'' @ [backslash, dquote]) []) = ''abc'' @ [dquote]"
    by (simp add: symbols_for_backslash_shielding_def append_escaped_def backslash_def
        dquote_def squote_def)
  have n: "dquote \<notin> set ''abc''" "backslash \<notin> set ''abc''"
    "\<not> closed_by_pairs dquote ''abc''"
    by (simp_all add: dquote_def backslash_def)
  from C7_string_never_fails [OF h, of "''abc'' @ [backslash, dquote]"]
    C7_string_never_fails [OF h, of "''abc''"] h u v n
  show ?thesis by simp
qed

section \<open>Properties of the evaluator\<close>

subsection \<open>Running the model on a program\<close>

lemma Execute_numeral:
  "Execute (numeral k) = Execute_node (Execute (pred_numeral k)) (pred_numeral k)"
  by (simp add: numeral_eq_Suc)

lemma Print_object_numeral:
  "Print_object run (numeral k) (ClassInstance this) st
     = Print_object run (Suc (pred_numeral k)) (ClassInstance this) st"
  by (simp add: numeral_eq_Suc)

lemmas run_simps = Execute_numeral Print_object_numeral IsTrue_def TryAs_String_def
  TryAs_Number_def TryAs_Bool_def TryAs_Class_def TryAs_ClassInstance_def put_def
  show_int_def show_nat.simps LF_def initial_state_def

lemma Counter_sorted:
  "Counter = Class ''Counter''
     [Method ''__init__'' []
        (MethodBody (Compound [FieldAssignment [''self''] ''n'' (NumberConst 0)])),
      Method ''inc'' []
        (MethodBody (Compound
           [FieldAssignment [''self''] ''n''
              (Add (VariableValue [''self'', ''n'']) (NumberConst 1)),
            Return (VariableValue [''self'', ''n''])]))]
     None"
  unfolding Counter_def new_Class_def by code_simp

subsection \<open>Method lookup along the ancestor chain\<close>

lemma GetMethod_along_chain:
  "GetMethod cls n = Some m
     \<Longrightarrow> \<exists>c \<in> set (ancestor_chain cls). m \<in> set (GetMethods c) \<and> name m = n"
proof (induction cls n rule: GetMethod.induct)
  case (1 nm ms p n)
  show ?case
  proof (cases "dropWhile (\<lambda>mth. name mth < n) ms")
    case Nil
    with 1 show ?thesis by (cases p) auto
  next
    case (Cons x xs)
    have x: "x \<in> set ms" using Cons set_dropWhileD [of x "\<lambda>mth. name mth < n" ms] by simp
    show ?thesis
    proof (cases "name x = n")
      case True
      with Cons 1(3) x show ?thesis by auto
    next
      case False
      with Cons 1 show ?thesis by (cases p) auto
    qed
  qed
qed

lemma HasMethod_along_chain:
  "HasMethod cls method k \<Longrightarrow> method_along_chain cls method k"
  unfolding HasMethod_def method_along_chain_def
  by (auto split: option.splits dest!: GetMethod_along_chain)

subsection \<open>The construction step of \<^verbatim>\<open>NewInstance\<close>\<close>

lemma NewInstance_constructed:
  "Execute (Suc n) (NewInstance cls args) closure st =
     (if HasMethod cls ''__init__'' (length args) then
        (case exec_args (Execute n) args closure (constructed cls st) of
           (Inl e, closure2, st2) \<Rightarrow> (Inl e, closure2, st2)
         | (Inr actual_args, closure2, st2) \<Rightarrow>
             (case Call (Execute n) (next_instance st) ''__init__'' actual_args st2 of
                (Inl e, st3) \<Rightarrow> (Inl e, closure2, st3)
              | (Inr _, st3) \<Rightarrow> (Inr (Own (ClassInstance (next_instance st))), closure2, st3)))
      else (Inr (Own (ClassInstance (next_instance st))), closure, constructed cls st))"
proof -
  have eq: "set_field (snd (new_ClassInstance cls st)) (next_instance st)
              ''self'' (Own (ClassInstance (next_instance st)))
            = constructed cls st"
    by (simp add: new_ClassInstance_def set_field_def Fields_def constructed_def)
  have a: "fst (new_ClassInstance cls st) = next_instance st"
    by (simp add: new_ClassInstance_def)
  show ?thesis
    by (simp only: Execute.simps Execute_node.simps split_beta eq a)
qed

subsection \<open>The local closure of a method call\<close>

lemma foldl_emplace_other:
  "k \<notin> fst ` set ps \<Longrightarrow> foldl (\<lambda>closure (p, a). emplace closure p a) c0 ps k = c0 k"
proof (induction ps arbitrary: c0)
  case Nil
  show ?case by simp
next
  case (Cons x xs)
  obtain p a where x: "x = (p, a)" by (cases x)
  from Cons.prems x have "k \<noteq> p" "k \<notin> fst ` set xs" by auto
  with Cons.IH [of "emplace c0 p a"] x show ?case
    by (simp add: emplace_def split: option.splits)
qed

lemma Call_local_self:
  assumes "GetMethod (cls' (instances st this)) method_name = Some mth"
    and "length (formal_params mth) = length actual_args"
    and "''self'' \<notin> set (formal_params mth)"
  shows "\<exists>local. local ''self'' = Some (Share (ClassInstance this))
           \<and> Call run this method_name actual_args st
               = (case run (body mth) local st of (r, _, st1) \<Rightarrow> (r, st1))"
proof -
  let ?params = "foldl (\<lambda>closure (p, a). emplace closure p a) Map.empty
                   (zip (formal_params mth) actual_args)"
  have "''self'' \<notin> fst ` set (zip (formal_params mth) actual_args)"
    using assms(3) by (auto dest: set_zip_leftD)
  then have "?params ''self'' = None"
    by (simp add: foldl_emplace_other)
  then have "emplace ?params ''self'' (Share (ClassInstance this)) ''self''
               = Some (Share (ClassInstance this))"
    by (simp add: emplace_def)
  moreover have "Call run this method_name actual_args st
      = (case run (body mth) (emplace ?params ''self'' (Share (ClassInstance this))) st of
           (r, _, st1) \<Rightarrow> (r, st1))"
    using assms(1,2) by (simp add: Call_def HasMethod_def)
  ultimately show ?thesis by blast
qed

subsection \<open>A statement binds only the names it assigns\<close>

lemma keeps_frameD:
  "keeps_frame run \<Longrightarrow> run s c st = (r, c1, st1) \<Longrightarrow> agree_outside (assigned s) c c1"
  unfolding keeps_frame_def by (metis fst_conv snd_conv)

lemma agree_refl: "agree_outside X c c"
  by (simp add: agree_outside_def)

lemma agree_subscript: "agree_outside {v} c (subscript c v)"
  by (simp add: agree_outside_def subscript_def split: option.splits)

lemma exec_args_frame:
  assumes "keeps_frame run"
  shows "exec_args run args c st = (r, c1, st1)
           \<Longrightarrow> agree_outside (\<Union>ex \<in> set args. assigned ex) c c1"
proof (induction args arbitrary: c st r c1 st1)
  case Nil
  then show ?case by (simp add: agree_refl)
next
  case (Cons ex rest)
  obtain r0 c0 st0 where e: "run ex c st = (r0, c0, st0)" by (cases "run ex c st")
  have a0: "agree_outside (assigned ex) c c0" by (rule keeps_frameD [OF assms e])
  show ?case
  proof (cases r0)
    case (Inl err)
    with Cons.prems e have "c1 = c0" by simp
    with a0 show ?thesis by (auto simp: agree_outside_def)
  next
    case (Inr v)
    obtain r2 c2 st2 where e2: "exec_args run rest c0 st0 = (r2, c2, st2)"
      by (cases "exec_args run rest c0 st0")
    from Cons.IH [OF e2] have a2: "agree_outside (\<Union>ex \<in> set rest. assigned ex) c0 c2" .
    from Cons.prems e Inr e2 have "c1 = c2" by (cases r2) simp_all
    with a0 a2 show ?thesis by (auto simp: agree_outside_def)
  qed
qed

lemma exec_stmts_frame:
  assumes "keeps_frame run"
  shows "exec_stmts run args c st = (r, c1, st1)
           \<Longrightarrow> agree_outside (\<Union>ex \<in> set args. assigned ex) c c1"
proof (induction args arbitrary: c st r c1 st1)
  case Nil
  then show ?case by (simp add: agree_refl)
next
  case (Cons ex rest)
  obtain r0 c0 st0 where e: "run ex c st = (r0, c0, st0)" by (cases "run ex c st")
  have a0: "agree_outside (assigned ex) c c0" by (rule keeps_frameD [OF assms e])
  show ?case
  proof (cases r0)
    case (Inl err)
    with Cons.prems e have "c1 = c0" by simp
    with a0 show ?thesis by (auto simp: agree_outside_def)
  next
    case (Inr v)
    with Cons.prems e have e2: "exec_stmts run rest c0 st0 = (r, c1, st1)" by simp
    from Cons.IH [OF e2] a0 show ?thesis by (auto simp: agree_outside_def)
  qed
qed

lemma print_args_frame:
  assumes "keeps_frame run"
  shows "print_args run n args is_first c st = (r, c1, st1)
           \<Longrightarrow> agree_outside (\<Union>ex \<in> set args. assigned ex) c c1"
proof (induction args arbitrary: is_first c st r c1 st1)
  case Nil
  then show ?case by (simp add: agree_refl)
next
  case (Cons ex rest)
  let ?st = "if \<not> is_first then put '' '' st else st"
  obtain r0 c0 st0 where e: "run ex c ?st = (r0, c0, st0)" by (cases "run ex c ?st")
  have a0: "agree_outside (assigned ex) c c0" by (rule keeps_frameD [OF assms e])
  show ?case
  proof (cases r0)
    case (Inl err)
    with Cons.prems e have "c1 = c0" by simp
    with a0 show ?thesis by (auto simp: agree_outside_def)
  next
    case (Inr obj)
    show ?thesis
    proof (cases "Get obj")
      case None
      with Cons.prems e Inr
      have e2: "print_args run n rest False c0 (put ''None'' st0) = (r, c1, st1)" by simp
      from Cons.IH [OF e2] a0 show ?thesis by (auto simp: agree_outside_def)
    next
      case (Some ob)
      obtain rp stp where p: "Print_object run n ob st0 = (rp, stp)"
        by (cases "Print_object run n ob st0")
      show ?thesis
      proof (cases rp)
        case (Inl err)
        with Cons.prems e Inr Some p have "c1 = c0" by simp
        with a0 show ?thesis by (auto simp: agree_outside_def)
      next
        case (Inr s)
        with Cons.prems e \<open>r0 = Inr obj\<close> Some p
        have e2: "print_args run n rest False c0 (put s stp) = (r, c1, st1)" by simp
        from Cons.IH [OF e2] a0 show ?thesis by (auto simp: agree_outside_def)
      qed
    qed
  qed
qed

lemma Execute_node_frame:
  assumes "keeps_frame run"
  shows "Execute_node run n s c st = (r, c1, st1) \<Longrightarrow> agree_outside (assigned s) c c1"
proof (cases s)
  case (NumberConst x1)
  then show "Execute_node run n s c st = (r, c1, st1) \<Longrightarrow> ?thesis" by (auto simp: agree_outside_def)
next
  case (StringConst x2)
  then show "Execute_node run n s c st = (r, c1, st1) \<Longrightarrow> ?thesis" by (auto simp: agree_outside_def)
next
  case (BoolConst x3)
  then show "Execute_node run n s c st = (r, c1, st1) \<Longrightarrow> ?thesis" by (auto simp: agree_outside_def)
next
  case NoneConst
  then show "Execute_node run n s c st = (r, c1, st1) \<Longrightarrow> ?thesis" by (auto simp: agree_outside_def)
next
  case (Assignment var rv)
  assume ex: "Execute_node run n s c st = (r, c1, st1)"
  obtain r0 c0 st0 where e: "run rv (subscript c var) st = (r0, c0, st0)"
    by (cases "run rv (subscript c var) st")
  have a0: "agree_outside (assigned rv) (subscript c var) c0" by (rule keeps_frameD [OF assms e])
  have "c1 = c0 \<or> (\<exists>v. c1 = c0(var \<mapsto> v))"
    using ex e Assignment by (cases r0) auto
  with a0 agree_subscript [of var c] show ?thesis
    unfolding Assignment by (auto simp: agree_outside_def)
next
  case (VariableValue x6)
  then show "Execute_node run n s c st = (r, c1, st1) \<Longrightarrow> ?thesis" by (auto simp: agree_outside_def)
next
  case (Print args)
  assume ex: "Execute_node run n s c st = (r, c1, st1)"
  obtain r0 c0 st0 where e: "print_args run n args True c st = (r0, c0, st0)"
    by (cases "print_args run n args True c st")
  have "c1 = c0" using ex e Print by (cases r0) auto
  with print_args_frame [OF assms e] show ?thesis unfolding Print by simp
next
  case (MethodCall object meth args)
  assume ex: "Execute_node run n s c st = (r, c1, st1)"
  obtain r0 c0 st0 where e: "run object c st = (r0, c0, st0)" by (cases "run object c st")
  have a0: "agree_outside (assigned object) c c0" by (rule keeps_frameD [OF assms e])
  show ?thesis
  proof (cases r0)
    case (Inl err)
    with ex e MethodCall have "c1 = c0" by simp
    with a0 show ?thesis unfolding MethodCall by (auto simp: agree_outside_def)
  next
    case (Inr obj)
    obtain r2 c2 st2 where e2: "exec_args run args c0 st0 = (r2, c2, st2)"
      by (cases "exec_args run args c0 st0")
    have "c1 = c2" using ex e Inr e2 MethodCall
      by (cases r2) (auto split: option.splits prod.splits)
    with a0 exec_args_frame [OF assms e2] show ?thesis
      unfolding MethodCall by (auto simp: agree_outside_def)
  qed
next
  case (Stringify argument)
  assume ex: "Execute_node run n s c st = (r, c1, st1)"
  obtain r0 c0 st0 where e: "run argument c st = (r0, c0, st0)" by (cases "run argument c st")
  obtain r2 c2 st2 where e2: "run argument c0 st0 = (r2, c2, st2)"
    by (cases "run argument c0 st0")
  have a0: "agree_outside (assigned argument) c c0" by (rule keeps_frameD [OF assms e])
  have a2: "agree_outside (assigned argument) c0 c2" by (rule keeps_frameD [OF assms e2])
  have "c1 = c0 \<or> c1 = c2" using ex e e2 Stringify
    by (auto split: option.splits prod.splits sum.splits)
  with a0 a2 show ?thesis unfolding Stringify by (auto simp: agree_outside_def)
next
  case (Add lhs rhs)
  assume ex: "Execute_node run n s c st = (r, c1, st1)"
  obtain r0 c0 st0 where e: "run lhs c st = (r0, c0, st0)" by (cases "run lhs c st")
  obtain r2 c2 st2 where e2: "run rhs c0 st0 = (r2, c2, st2)" by (cases "run rhs c0 st0")
  have a0: "agree_outside (assigned lhs) c c0" by (rule keeps_frameD [OF assms e])
  have a2: "agree_outside (assigned rhs) c0 c2" by (rule keeps_frameD [OF assms e2])
  have "c1 = c0 \<or> c1 = c2" using ex e e2 Add
    by (auto split: option.splits prod.splits sum.splits if_splits)
  with a0 a2 show ?thesis unfolding Add by (auto simp: agree_outside_def)
next
  case (Sub lhs rhs)
  assume ex: "Execute_node run n s c st = (r, c1, st1)"
  obtain r0 c0 st0 where e: "run lhs c st = (r0, c0, st0)" by (cases "run lhs c st")
  obtain r2 c2 st2 where e2: "run rhs c0 st0 = (r2, c2, st2)" by (cases "run rhs c0 st0")
  have a0: "agree_outside (assigned lhs) c c0" by (rule keeps_frameD [OF assms e])
  have a2: "agree_outside (assigned rhs) c0 c2" by (rule keeps_frameD [OF assms e2])
  have "c1 = c0 \<or> c1 = c2" using ex e e2 Sub
    by (auto split: option.splits prod.splits sum.splits if_splits)
  with a0 a2 show ?thesis unfolding Sub by (auto simp: agree_outside_def)
next
  case (Mult lhs rhs)
  assume ex: "Execute_node run n s c st = (r, c1, st1)"
  obtain r0 c0 st0 where e: "run lhs c st = (r0, c0, st0)" by (cases "run lhs c st")
  obtain r2 c2 st2 where e2: "run rhs c0 st0 = (r2, c2, st2)" by (cases "run rhs c0 st0")
  have a0: "agree_outside (assigned lhs) c c0" by (rule keeps_frameD [OF assms e])
  have a2: "agree_outside (assigned rhs) c0 c2" by (rule keeps_frameD [OF assms e2])
  have "c1 = c0 \<or> c1 = c2" using ex e e2 Mult
    by (auto split: option.splits prod.splits sum.splits if_splits)
  with a0 a2 show ?thesis unfolding Mult by (auto simp: agree_outside_def)
next
  case (Div lhs rhs)
  assume ex: "Execute_node run n s c st = (r, c1, st1)"
  obtain r0 c0 st0 where e: "run lhs c st = (r0, c0, st0)" by (cases "run lhs c st")
  obtain r2 c2 st2 where e2: "run rhs c0 st0 = (r2, c2, st2)" by (cases "run rhs c0 st0")
  have a0: "agree_outside (assigned lhs) c c0" by (rule keeps_frameD [OF assms e])
  have a2: "agree_outside (assigned rhs) c0 c2" by (rule keeps_frameD [OF assms e2])
  have "c1 = c0 \<or> c1 = c2" using ex e e2 Div
    by (auto split: option.splits prod.splits sum.splits if_splits)
  with a0 a2 show ?thesis unfolding Div by (auto simp: agree_outside_def)
next
  case (Compound args)
  assume ex: "Execute_node run n s c st = (r, c1, st1)"
  obtain r0 c0 st0 where e: "exec_stmts run args c st = (r0, c0, st0)"
    by (cases "exec_stmts run args c st")
  have "c1 = c0" using ex e Compound by (cases r0) auto
  with exec_stmts_frame [OF assms e] show ?thesis unfolding Compound by simp
next
  case (Return statement)
  assume ex: "Execute_node run n s c st = (r, c1, st1)"
  obtain r0 c0 st0 where e: "run statement c st = (r0, c0, st0)" by (cases "run statement c st")
  have "c1 = c0" using ex e Return by (cases r0) auto
  with keeps_frameD [OF assms e] show ?thesis unfolding Return by simp
next
  case (ClassDefinition cls)
  then show "Execute_node run n s c st = (r, c1, st1) \<Longrightarrow> ?thesis"
    by (auto simp: agree_outside_def split: option.splits)
next
  case (FieldAssignment object field_name rv)
  assume ex: "Execute_node run n s c st = (r, c1, st1)"
  obtain r0 c0 st0 where e: "run rv c st = (r0, c0, st0)" by (cases "run rv c st")
  have a0: "agree_outside (assigned rv) c c0" by (rule keeps_frameD [OF assms e])
  have "c1 = c \<or> c1 = c0" using ex e FieldAssignment
    by (auto split: option.splits prod.splits sum.splits if_splits)
  with a0 show ?thesis unfolding FieldAssignment by (auto simp: agree_outside_def)
next
  case (IfElse condition if_body else_body)
  assume ex: "Execute_node run n s c st = (r, c1, st1)"
  obtain r0 c0 st0 where e: "run condition c st = (r0, c0, st0)" by (cases "run condition c st")
  have a0: "agree_outside (assigned condition) c c0" by (rule keeps_frameD [OF assms e])
  have "c1 = c0 \<or> (\<exists>r2 st2. run if_body c0 st0 = (r2, c1, st2))
          \<or> (\<exists>eb r2 st2. else_body = Some eb \<and> run eb c0 st0 = (r2, c1, st2))"
    using ex e IfElse by (auto split: option.splits prod.splits sum.splits if_splits)
  with a0 keeps_frameD [OF assms] show ?thesis
    unfolding IfElse by (fastforce simp: agree_outside_def)
next
  case (Or lhs rhs)
  assume ex: "Execute_node run n s c st = (r, c1, st1)"
  obtain r0 c0 st0 where e: "run lhs c st = (r0, c0, st0)" by (cases "run lhs c st")
  obtain r2 c2 st2 where e2: "run rhs c0 st0 = (r2, c2, st2)" by (cases "run rhs c0 st0")
  have a0: "agree_outside (assigned lhs) c c0" by (rule keeps_frameD [OF assms e])
  have a2: "agree_outside (assigned rhs) c0 c2" by (rule keeps_frameD [OF assms e2])
  have "c1 = c0 \<or> c1 = c2" using ex e e2 Or
    by (auto split: option.splits prod.splits sum.splits if_splits)
  with a0 a2 show ?thesis unfolding Or by (auto simp: agree_outside_def)
next
  case (And lhs rhs)
  assume ex: "Execute_node run n s c st = (r, c1, st1)"
  obtain r0 c0 st0 where e: "run lhs c st = (r0, c0, st0)" by (cases "run lhs c st")
  obtain r2 c2 st2 where e2: "run rhs c0 st0 = (r2, c2, st2)" by (cases "run rhs c0 st0")
  have a0: "agree_outside (assigned lhs) c c0" by (rule keeps_frameD [OF assms e])
  have a2: "agree_outside (assigned rhs) c0 c2" by (rule keeps_frameD [OF assms e2])
  have "c1 = c0 \<or> c1 = c2" using ex e e2 And
    by (auto split: option.splits prod.splits sum.splits if_splits)
  with a0 a2 show ?thesis unfolding And by (auto simp: agree_outside_def)
next
  case (Not_stmt argument)
  assume ex: "Execute_node run n s c st = (r, c1, st1)"
  obtain r0 c0 st0 where e: "run argument c st = (r0, c0, st0)" by (cases "run argument c st")
  have "c1 = c0" using ex e Not_stmt by (cases r0) auto
  with keeps_frameD [OF assms e] show ?thesis unfolding Not_stmt by simp
next
  case (Comparison cmp lhs rhs)
  assume ex: "Execute_node run n s c st = (r, c1, st1)"
  obtain r0 c0 st0 where e: "run lhs c st = (r0, c0, st0)" by (cases "run lhs c st")
  obtain r2 c2 st2 where e2: "run rhs c0 st0 = (r2, c2, st2)" by (cases "run rhs c0 st0")
  have a0: "agree_outside (assigned lhs) c c0" by (rule keeps_frameD [OF assms e])
  have a2: "agree_outside (assigned rhs) c0 c2" by (rule keeps_frameD [OF assms e2])
  have "c1 = c0 \<or> c1 = c2" using ex e e2 Comparison
    by (auto split: option.splits prod.splits sum.splits if_splits)
  with a0 a2 show ?thesis unfolding Comparison by (auto simp: agree_outside_def)
next
  case (NewInstance cls args)
  assume ex: "Execute_node run n s c st = (r, c1, st1)"
  obtain r2 c2 st2 where e2: "exec_args run args c (constructed cls st) = (r2, c2, st2)"
    by (cases "exec_args run args c (constructed cls st)")
  have eq: "set_field (snd (new_ClassInstance cls st)) (next_instance st)
              ''self'' (Own (ClassInstance (next_instance st)))
            = constructed cls st"
    by (simp add: new_ClassInstance_def set_field_def Fields_def constructed_def)
  have a: "fst (new_ClassInstance cls st) = next_instance st"
    by (simp add: new_ClassInstance_def)
  have "c1 = c \<or> c1 = c2" using ex e2 unfolding NewInstance
    by (simp only: Execute_node.simps split_beta eq a)
       (auto split: option.splits prod.splits sum.splits if_splits)
  with exec_args_frame [OF assms e2] show ?thesis
    unfolding NewInstance by (auto simp: agree_outside_def)
next
  case (MethodBody body_stmt)
  assume ex: "Execute_node run n s c st = (r, c1, st1)"
  obtain r0 c0 st0 where e: "run body_stmt c st = (r0, c0, st0)" by (cases "run body_stmt c st")
  have "c1 = c0" using ex e MethodBody
    by (auto split: option.splits prod.splits sum.splits thrown.splits)
  with keeps_frameD [OF assms e] show ?thesis unfolding MethodBody by simp
qed

lemma Execute_keeps_frame: "keeps_frame (Execute n)"
proof (induction n)
  case 0
  show ?case by (simp add: keeps_frame_def agree_refl)
next
  case (Suc n)
  show ?case
    unfolding keeps_frame_def
  proof (intro allI)
    fix s c st
    obtain r c1 st1 where e: "Execute (Suc n) s c st = (r, c1, st1)"
      by (cases "Execute (Suc n) s c st")
    then have "Execute_node (Execute n) n s c st = (r, c1, st1)" by simp
    from Execute_node_frame [OF Suc this] e
    show "agree_outside (assigned s) c (fst (snd (Execute (Suc n) s c st)))" by simp
  qed
qed

subsection \<open>Statements that assign no field named \<^verbatim>\<open>self\<close> keep the binding\<close>

lemma self_bound_put: "self_bound (put s st) = self_bound st"
  by (simp add: self_bound_def put_def Fields_def)

lemma self_bound_set_field:
  "key \<noteq> ''self'' \<Longrightarrow> self_bound st \<Longrightarrow> self_bound (set_field st a key v)"
  by (simp add: self_bound_def set_field_def Fields_def)

lemma self_bound_constructed:
  "class_no_self_field cls \<Longrightarrow> self_bound st \<Longrightarrow> self_bound (constructed cls st)"
  by (auto simp: self_bound_def constructed_def Fields_def less_Suc_eq)

lemma self_bound_initial: "self_bound initial_state"
  by (simp add: self_bound_def initial_state_def)

lemma GetMethod_no_self_field:
  "class_no_self_field cls \<Longrightarrow> GetMethod cls n = Some m \<Longrightarrow> no_self_field (body m)"
proof (induction cls n rule: GetMethod.induct)
  case (1 nm ms p n)
  from "1.prems"(1) have ms: "\<forall>x \<in> set ms. method_no_self_field x"
    and pp: "\<And>c. p = Some c \<Longrightarrow> class_no_self_field c"
    by auto
  have mb: "\<And>x. method_no_self_field x \<Longrightarrow> no_self_field (body x)"
  proof -
    fix x assume "method_no_self_field x"
    then show "no_self_field (body x)" by (cases x) simp
  qed
  show ?case
  proof (cases "dropWhile (\<lambda>mth. name mth < n) ms")
    case Nil
    with 1 pp show ?thesis by (cases p) auto
  next
    case (Cons x xs)
    have x: "x \<in> set ms" using Cons set_dropWhileD [of x "\<lambda>mth. name mth < n" ms] by simp
    show ?thesis
    proof (cases "name x = n")
      case True
      with Cons "1.prems"(2) have "m = x" by simp
      with x ms mb show ?thesis by blast
    next
      case False
      with Cons 1 pp show ?thesis by (cases p) auto
    qed
  qed
qed

lemma keeps_selfD:
  "keeps_self run \<Longrightarrow> no_self_field s \<Longrightarrow> self_bound st \<Longrightarrow> run s c st = (r, c1, st1)
     \<Longrightarrow> self_bound st1"
  unfolding keeps_self_def by (metis snd_conv)

lemma Call_self:
  assumes "keeps_self run" and "self_bound st" and "Call run this mname args st = (r, st1)"
  shows "self_bound st1"
proof (cases "HasMethod (cls' (instances st this)) mname (length args)")
  case False
  with assms(3) have "st1 = st" by (simp add: Call_def)
  with assms(2) show ?thesis by simp
next
  case True
  then obtain mth where g: "GetMethod (cls' (instances st this)) mname = Some mth"
    by (auto simp: HasMethod_def split: option.splits)
  from assms(2) have "class_no_self_field (cls' (instances st this))"
    by (simp add: self_bound_def)
  from GetMethod_no_self_field [OF this g] have ok: "no_self_field (body mth)" .
  let ?local = "emplace
                  (foldl (\<lambda>closure (p, a). emplace closure p a) Map.empty
                     (zip (formal_params mth) args))
                  ''self'' (Share (ClassInstance this))"
  obtain r0 c0 st0 where e: "run (body mth) ?local st = (r0, c0, st0)"
    by (cases "run (body mth) ?local st")
  from assms(3) True g e have "st1 = st0" by (simp add: Call_def)
  with keeps_selfD [OF assms(1) ok assms(2) e] show ?thesis by simp
qed

lemma Print_object_self:
  assumes "keeps_self run"
  shows "self_bound st \<Longrightarrow> Print_object run k ob st = (r, st1) \<Longrightarrow> self_bound st1"
proof (induction k arbitrary: ob st r st1)
  case 0
  then show ?case by (cases ob) auto
next
  case (Suc k)
  show ?case
  proof (cases ob)
    case (ClassInstance this)
    show ?thesis
    proof (cases "HasMethod (cls' (instances st this)) ''__str__'' 0")
      case False
      with Suc.prems ClassInstance show ?thesis by simp
    next
      case True
      obtain r0 st0 where c: "Call run this ''__str__'' [] st = (r0, st0)"
        by (cases "Call run this ''__str__'' [] st")
      from Call_self [OF assms Suc.prems(1) c] have s0: "self_bound st0" .
      show ?thesis
      proof (cases r0)
        case (Inl e)
        with Suc.prems(2) ClassInstance True c have "st1 = st0" by simp
        with s0 show ?thesis by simp
      next
        case (Inr h)
        show ?thesis
        proof (cases "Get h")
          case None
          with Suc.prems(2) ClassInstance True c Inr have "st1 = st0" by simp
          with s0 show ?thesis by simp
        next
          case (Some ob2)
          with Suc.prems(2) ClassInstance True c Inr
          have "Print_object run k ob2 st0 = (r, st1)" by simp
          from Suc.IH [OF s0 this] show ?thesis .
        qed
      qed
    qed
  qed (use Suc.prems in auto)
qed

lemma Equal_self:
  assumes "keeps_self run" and "self_bound st" and "Equal run lhs rhs st = (r, st1)"
  shows "self_bound st1"
proof -
  have "st1 = st \<or> (\<exists>a r0. Call run a ''__eq__'' [rhs] st = (r0, st1))"
    using assms(3) unfolding Equal_def
    by (auto split: if_splits option.splits prod.splits sum.splits)
  with assms(2) Call_self [OF assms(1,2)] show ?thesis by blast
qed

lemma Less_self:
  assumes "keeps_self run" and "self_bound st" and "Less run lhs rhs st = (r, st1)"
  shows "self_bound st1"
proof -
  have "st1 = st \<or> (\<exists>a r0. Call run a ''__lt__'' [rhs] st = (r0, st1))"
    using assms(3) unfolding Less_def
    by (auto split: if_splits option.splits prod.splits sum.splits)
  with assms(2) Call_self [OF assms(1,2)] show ?thesis by blast
qed

lemma Compare_self:
  assumes "keeps_self run" and "self_bound st" and "Compare run cmp lhs rhs st = (r, st1)"
  shows "self_bound st1"
proof -
  obtain rl stl where l: "Less run lhs rhs st = (rl, stl)" by (cases "Less run lhs rhs st")
  obtain re ste where e: "Equal run lhs rhs st = (re, ste)" by (cases "Equal run lhs rhs st")
  obtain re2 ste2 where e2: "Equal run lhs rhs stl = (re2, ste2)"
    by (cases "Equal run lhs rhs stl")
  note sl = Less_self [OF assms(1,2) l]
  note se = Equal_self [OF assms(1,2) e]
  note se2 = Equal_self [OF assms(1) sl e2]
  have "st1 = stl \<or> st1 = ste \<or> st1 = ste2"
    using assms(3) l e e2
    by (cases cmp) (auto split: if_splits prod.splits sum.splits)
  with sl se se2 show ?thesis by blast
qed

lemma exec_args_self:
  assumes "keeps_self run"
  shows "\<forall>ex \<in> set args. no_self_field ex \<Longrightarrow> self_bound st
           \<Longrightarrow> exec_args run args c st = (r, c1, st1) \<Longrightarrow> self_bound st1"
proof (induction args arbitrary: c st r c1 st1)
  case Nil
  then show ?case by simp
next
  case (Cons ex rest)
  obtain r0 c0 st0 where e: "run ex c st = (r0, c0, st0)" by (cases "run ex c st")
  from Cons.prems(1) have ok: "no_self_field ex" "\<forall>x \<in> set rest. no_self_field x" by simp_all
  from keeps_selfD [OF assms ok(1) Cons.prems(2) e] have s0: "self_bound st0" .
  show ?case
  proof (cases r0)
    case (Inl err)
    with Cons.prems(3) e have "st1 = st0" by simp
    with s0 show ?thesis by simp
  next
    case (Inr v)
    obtain r2 c2 st2 where e2: "exec_args run rest c0 st0 = (r2, c2, st2)"
      by (cases "exec_args run rest c0 st0")
    from Cons.prems(3) e Inr e2 have "st1 = st2" by (cases r2) simp_all
    with Cons.IH [OF ok(2) s0 e2] show ?thesis by simp
  qed
qed

lemma exec_stmts_self:
  assumes "keeps_self run"
  shows "\<forall>ex \<in> set args. no_self_field ex \<Longrightarrow> self_bound st
           \<Longrightarrow> exec_stmts run args c st = (r, c1, st1) \<Longrightarrow> self_bound st1"
proof (induction args arbitrary: c st r c1 st1)
  case Nil
  then show ?case by simp
next
  case (Cons ex rest)
  obtain r0 c0 st0 where e: "run ex c st = (r0, c0, st0)" by (cases "run ex c st")
  from Cons.prems(1) have ok: "no_self_field ex" "\<forall>x \<in> set rest. no_self_field x" by simp_all
  from keeps_selfD [OF assms ok(1) Cons.prems(2) e] have s0: "self_bound st0" .
  show ?case
  proof (cases r0)
    case (Inl err)
    with Cons.prems(3) e have "st1 = st0" by simp
    with s0 show ?thesis by simp
  next
    case (Inr v)
    with Cons.prems(3) e have e2: "exec_stmts run rest c0 st0 = (r, c1, st1)" by simp
    from Cons.IH [OF ok(2) s0 e2] show ?thesis .
  qed
qed

lemma print_args_self:
  assumes "keeps_self run"
  shows "\<forall>ex \<in> set args. no_self_field ex \<Longrightarrow> self_bound st
           \<Longrightarrow> print_args run n args is_first c st = (r, c1, st1) \<Longrightarrow> self_bound st1"
proof (induction args arbitrary: is_first c st r c1 st1)
  case Nil
  then show ?case by simp
next
  case (Cons ex rest)
  let ?st = "if \<not> is_first then put '' '' st else st"
  have sp: "self_bound ?st" using Cons.prems(2) by (simp add: self_bound_put)
  obtain r0 c0 st0 where e: "run ex c ?st = (r0, c0, st0)" by (cases "run ex c ?st")
  from Cons.prems(1) have ok: "no_self_field ex" "\<forall>x \<in> set rest. no_self_field x" by simp_all
  from keeps_selfD [OF assms ok(1) sp e] have s0: "self_bound st0" .
  show ?case
  proof (cases r0)
    case (Inl err)
    with Cons.prems(3) e have "st1 = st0" by simp
    with s0 show ?thesis by simp
  next
    case (Inr obj)
    show ?thesis
    proof (cases "Get obj")
      case None
      with Cons.prems(3) e Inr
      have e2: "print_args run n rest False c0 (put ''None'' st0) = (r, c1, st1)" by simp
      from s0 have "self_bound (put ''None'' st0)" by (simp add: self_bound_put)
      from Cons.IH [OF ok(2) this e2] show ?thesis .
    next
      case (Some ob)
      obtain rp stp where p: "Print_object run n ob st0 = (rp, stp)"
        by (cases "Print_object run n ob st0")
      from Print_object_self [OF assms s0 p] have sp2: "self_bound stp" .
      show ?thesis
      proof (cases rp)
        case (Inl err)
        with Cons.prems(3) e Inr Some p have "st1 = stp" by simp
        with sp2 show ?thesis by simp
      next
        case (Inr s)
        with Cons.prems(3) e \<open>r0 = Inr obj\<close> Some p
        have e2: "print_args run n rest False c0 (put s stp) = (r, c1, st1)" by simp
        from sp2 have "self_bound (put s stp)" by (simp add: self_bound_put)
        from Cons.IH [OF ok(2) this e2] show ?thesis .
      qed
    qed
  qed
qed

lemma Execute_node_self:
  assumes kr: "keeps_self run" and ok: "no_self_field s" and sb: "self_bound st"
    and ex: "Execute_node run n s c st = (r, c1, st1)"
  shows "self_bound st1"
proof (cases s)
  case (NumberConst x1)
  with ex sb show ?thesis by auto
next
  case (StringConst x2)
  with ex sb show ?thesis by auto
next
  case (BoolConst x3)
  with ex sb show ?thesis by auto
next
  case NoneConst
  with ex sb show ?thesis by auto
next
  case (Assignment var rv)
  obtain r0 c0 st0 where e: "run rv (subscript c var) st = (r0, c0, st0)"
    by (cases "run rv (subscript c var) st")
  from ok Assignment have "no_self_field rv" by simp
  from keeps_selfD [OF kr this sb e] have s0: "self_bound st0" .
  have "st1 = st0" using ex e Assignment by (cases r0) auto
  with s0 show ?thesis by simp
next
  case (VariableValue x6)
  with ex sb show ?thesis by auto
next
  case (Print args)
  obtain r0 c0 st0 where e: "print_args run n args True c st = (r0, c0, st0)"
    by (cases "print_args run n args True c st")
  from ok Print have "\<forall>x \<in> set args. no_self_field x" by simp
  from print_args_self [OF kr this sb e] have s0: "self_bound st0" .
  have "st1 = st0 \<or> st1 = put [LF] st0" using ex e Print by (cases r0) auto
  with s0 show ?thesis by (auto simp: self_bound_put)
next
  case (MethodCall object meth args)
  obtain r0 c0 st0 where e: "run object c st = (r0, c0, st0)" by (cases "run object c st")
  obtain r2 c2 st2 where e2: "exec_args run args c0 st0 = (r2, c2, st2)"
    by (cases "exec_args run args c0 st0")
  from ok MethodCall have oks: "no_self_field object" "\<forall>x \<in> set args. no_self_field x"
    by simp_all
  from keeps_selfD [OF kr oks(1) sb e] have s0: "self_bound st0" .
  from exec_args_self [OF kr oks(2) s0 e2] have s2: "self_bound st2" .
  have "st1 = st0 \<or> st1 = st2 \<or> (\<exists>a actual r3. Call run a meth actual st2 = (r3, st1))"
    using ex e e2 MethodCall
    by (auto split: option.splits prod.splits sum.splits)
  with s0 s2 Call_self [OF kr s2] show ?thesis by blast
next
  case (Stringify argument)
  obtain r0 c0 st0 where e: "run argument c st = (r0, c0, st0)" by (cases "run argument c st")
  obtain r2 c2 st2 where e2: "run argument c0 st0 = (r2, c2, st2)"
    by (cases "run argument c0 st0")
  from ok Stringify have oka: "no_self_field argument" by simp
  from keeps_selfD [OF kr oka sb e] have s0: "self_bound st0" .
  from keeps_selfD [OF kr oka s0 e2] have s2: "self_bound st2" .
  have "st1 = st0 \<or> st1 = st2 \<or> (\<exists>ob r3. Print_object run n ob st2 = (r3, st1))"
    using ex e e2 Stringify
    by (auto split: option.splits prod.splits sum.splits)
  with s0 s2 Print_object_self [OF kr s2] show ?thesis by blast
next
  case (Add lhs rhs)
  obtain r0 c0 st0 where e: "run lhs c st = (r0, c0, st0)" by (cases "run lhs c st")
  obtain r2 c2 st2 where e2: "run rhs c0 st0 = (r2, c2, st2)" by (cases "run rhs c0 st0")
  from ok Add have oks: "no_self_field lhs" "no_self_field rhs" by simp_all
  from keeps_selfD [OF kr oks(1) sb e] have s0: "self_bound st0" .
  from keeps_selfD [OF kr oks(2) s0 e2] have s2: "self_bound st2" .
  have "st1 = st0 \<or> st1 = st2 \<or> (\<exists>a actual r3. Call run a ''__add__'' actual st2 = (r3, st1))"
    using ex e e2 Add
    by (auto split: option.splits prod.splits sum.splits if_splits)
  with s0 s2 Call_self [OF kr s2] show ?thesis by blast
next
  case (Sub lhs rhs)
  obtain r0 c0 st0 where e: "run lhs c st = (r0, c0, st0)" by (cases "run lhs c st")
  obtain r2 c2 st2 where e2: "run rhs c0 st0 = (r2, c2, st2)" by (cases "run rhs c0 st0")
  from ok Sub have oks: "no_self_field lhs" "no_self_field rhs" by simp_all
  from keeps_selfD [OF kr oks(1) sb e] have s0: "self_bound st0" .
  from keeps_selfD [OF kr oks(2) s0 e2] have s2: "self_bound st2" .
  have "st1 = st0 \<or> st1 = st2" using ex e e2 Sub
    by (auto split: option.splits prod.splits sum.splits if_splits)
  with s0 s2 show ?thesis by blast
next
  case (Mult lhs rhs)
  obtain r0 c0 st0 where e: "run lhs c st = (r0, c0, st0)" by (cases "run lhs c st")
  obtain r2 c2 st2 where e2: "run rhs c0 st0 = (r2, c2, st2)" by (cases "run rhs c0 st0")
  from ok Mult have oks: "no_self_field lhs" "no_self_field rhs" by simp_all
  from keeps_selfD [OF kr oks(1) sb e] have s0: "self_bound st0" .
  from keeps_selfD [OF kr oks(2) s0 e2] have s2: "self_bound st2" .
  have "st1 = st0 \<or> st1 = st2" using ex e e2 Mult
    by (auto split: option.splits prod.splits sum.splits if_splits)
  with s0 s2 show ?thesis by blast
next
  case (Div lhs rhs)
  obtain r0 c0 st0 where e: "run lhs c st = (r0, c0, st0)" by (cases "run lhs c st")
  obtain r2 c2 st2 where e2: "run rhs c0 st0 = (r2, c2, st2)" by (cases "run rhs c0 st0")
  from ok Div have oks: "no_self_field lhs" "no_self_field rhs" by simp_all
  from keeps_selfD [OF kr oks(1) sb e] have s0: "self_bound st0" .
  from keeps_selfD [OF kr oks(2) s0 e2] have s2: "self_bound st2" .
  have "st1 = st0 \<or> st1 = st2" using ex e e2 Div
    by (auto split: option.splits prod.splits sum.splits if_splits)
  with s0 s2 show ?thesis by blast
next
  case (Compound args)
  obtain r0 c0 st0 where e: "exec_stmts run args c st = (r0, c0, st0)"
    by (cases "exec_stmts run args c st")
  from ok Compound have "\<forall>x \<in> set args. no_self_field x" by simp
  from exec_stmts_self [OF kr this sb e] have s0: "self_bound st0" .
  have "st1 = st0" using ex e Compound by (cases r0) auto
  with s0 show ?thesis by simp
next
  case (Return statement)
  obtain r0 c0 st0 where e: "run statement c st = (r0, c0, st0)" by (cases "run statement c st")
  from ok Return have "no_self_field statement" by simp
  from keeps_selfD [OF kr this sb e] have s0: "self_bound st0" .
  have "st1 = st0" using ex e Return by (cases r0) auto
  with s0 show ?thesis by simp
next
  case (ClassDefinition cls)
  with ex sb show ?thesis by (auto split: option.splits)
next
  case (FieldAssignment object field_name rv)
  obtain r0 c0 st0 where e: "run rv c st = (r0, c0, st0)" by (cases "run rv c st")
  from ok FieldAssignment have oks: "field_name \<noteq> ''self''" "no_self_field rv" by simp_all
  from keeps_selfD [OF kr oks(2) sb e] have s0: "self_bound st0" .
  have "st1 = st \<or> st1 = st0 \<or> (\<exists>a v. st1 = set_field st0 a field_name v)"
    using ex e FieldAssignment
    by (auto split: option.splits prod.splits sum.splits)
  with sb s0 self_bound_set_field [OF oks(1) s0] show ?thesis by blast
next
  case (IfElse condition if_body else_body)
  obtain r0 c0 st0 where e: "run condition c st = (r0, c0, st0)" by (cases "run condition c st")
  from ok IfElse have oks: "no_self_field condition" "no_self_field if_body"
    "\<And>eb. else_body = Some eb \<Longrightarrow> no_self_field eb" by simp_all
  from keeps_selfD [OF kr oks(1) sb e] have s0: "self_bound st0" .
  have "st1 = st0 \<or> (\<exists>r2 c2. run if_body c0 st0 = (r2, c2, st1))
          \<or> (\<exists>eb r2 c2. else_body = Some eb \<and> run eb c0 st0 = (r2, c2, st1))"
    using ex e IfElse by (auto split: option.splits prod.splits sum.splits if_splits)
  with s0 keeps_selfD [OF kr oks(2) s0] keeps_selfD [OF kr oks(3) s0] show ?thesis by blast
next
  case (Or lhs rhs)
  obtain r0 c0 st0 where e: "run lhs c st = (r0, c0, st0)" by (cases "run lhs c st")
  obtain r2 c2 st2 where e2: "run rhs c0 st0 = (r2, c2, st2)" by (cases "run rhs c0 st0")
  from ok Or have oks: "no_self_field lhs" "no_self_field rhs" by simp_all
  from keeps_selfD [OF kr oks(1) sb e] have s0: "self_bound st0" .
  from keeps_selfD [OF kr oks(2) s0 e2] have s2: "self_bound st2" .
  have "st1 = st0 \<or> st1 = st2" using ex e e2 Or
    by (auto split: option.splits prod.splits sum.splits if_splits)
  with s0 s2 show ?thesis by blast
next
  case (And lhs rhs)
  obtain r0 c0 st0 where e: "run lhs c st = (r0, c0, st0)" by (cases "run lhs c st")
  obtain r2 c2 st2 where e2: "run rhs c0 st0 = (r2, c2, st2)" by (cases "run rhs c0 st0")
  from ok And have oks: "no_self_field lhs" "no_self_field rhs" by simp_all
  from keeps_selfD [OF kr oks(1) sb e] have s0: "self_bound st0" .
  from keeps_selfD [OF kr oks(2) s0 e2] have s2: "self_bound st2" .
  have "st1 = st0 \<or> st1 = st2" using ex e e2 And
    by (auto split: option.splits prod.splits sum.splits if_splits)
  with s0 s2 show ?thesis by blast
next
  case (Not_stmt argument)
  obtain r0 c0 st0 where e: "run argument c st = (r0, c0, st0)" by (cases "run argument c st")
  from ok Not_stmt have "no_self_field argument" by simp
  from keeps_selfD [OF kr this sb e] have s0: "self_bound st0" .
  have "st1 = st0" using ex e Not_stmt by (cases r0) auto
  with s0 show ?thesis by simp
next
  case (Comparison cmp lhs rhs)
  obtain r0 c0 st0 where e: "run lhs c st = (r0, c0, st0)" by (cases "run lhs c st")
  obtain r2 c2 st2 where e2: "run rhs c0 st0 = (r2, c2, st2)" by (cases "run rhs c0 st0")
  from ok Comparison have oks: "no_self_field lhs" "no_self_field rhs" by simp_all
  from keeps_selfD [OF kr oks(1) sb e] have s0: "self_bound st0" .
  from keeps_selfD [OF kr oks(2) s0 e2] have s2: "self_bound st2" .
  have "st1 = st0 \<or> st1 = st2 \<or> (\<exists>l rr r3. Compare run cmp l rr st2 = (r3, st1))"
    using ex e e2 Comparison
    by (auto split: option.splits prod.splits sum.splits if_splits)
  with s0 s2 Compare_self [OF kr s2] show ?thesis by blast
next
  case (NewInstance cls args)
  obtain r2 c2 st2 where e2: "exec_args run args c (constructed cls st) = (r2, c2, st2)"
    by (cases "exec_args run args c (constructed cls st)")
  from ok NewInstance have oks: "class_no_self_field cls" "\<forall>x \<in> set args. no_self_field x"
    by simp_all
  from self_bound_constructed [OF oks(1) sb] have sc: "self_bound (constructed cls st)" .
  from exec_args_self [OF kr oks(2) sc e2] have s2: "self_bound st2" .
  have eq: "set_field (snd (new_ClassInstance cls st)) (next_instance st)
              ''self'' (Own (ClassInstance (next_instance st)))
            = constructed cls st"
    by (simp add: new_ClassInstance_def set_field_def Fields_def constructed_def)
  have a: "fst (new_ClassInstance cls st) = next_instance st"
    by (simp add: new_ClassInstance_def)
  have "st1 = constructed cls st \<or> st1 = st2
          \<or> (\<exists>a actual. st1 = snd (Call run a ''__init__'' actual st2))"
    using ex e2 unfolding NewInstance
    by (simp only: Execute_node.simps split_beta eq a)
       (auto split: option.splits prod.splits sum.splits if_splits)
  moreover have "\<And>a actual. self_bound (snd (Call run a ''__init__'' actual st2))"
    using Call_self [OF kr s2] by (metis prod.collapse)
  ultimately show ?thesis using sc s2 by blast
next
  case (MethodBody body_stmt)
  obtain r0 c0 st0 where e: "run body_stmt c st = (r0, c0, st0)" by (cases "run body_stmt c st")
  from ok MethodBody have "no_self_field body_stmt" by simp
  from keeps_selfD [OF kr this sb e] have s0: "self_bound st0" .
  have "st1 = st0" using ex e MethodBody
    by (auto split: option.splits prod.splits sum.splits thrown.splits)
  with s0 show ?thesis by simp
qed

lemma Execute_keeps_self: "keeps_self (Execute n)"
proof (induction n)
  case 0
  show ?case by (simp add: keeps_self_def)
next
  case (Suc n)
  show ?case
    unfolding keeps_self_def
  proof (intro allI impI)
    fix s c st
    assume ok: "no_self_field s" and sb: "self_bound st"
    obtain r c1 st1 where e: "Execute (Suc n) s c st = (r, c1, st1)"
      by (cases "Execute (Suc n) s c st")
    then have "Execute_node (Execute n) n s c st = (r, c1, st1)" by simp
    from Execute_node_self [OF Suc ok sb this] e
    show "self_bound (snd (snd (Execute (Suc n) s c st)))" by simp
  qed
qed

subsection \<open>The loop of \<^verbatim>\<open>Compound\<close>\<close>


subsection \<open>Logical operators\<close>

text \<open>
  Claim C1, as stated: \<^verbatim>\<open>And(l, r)\<close> and \<^verbatim>\<open>Or(l, r)\<close> evaluate both operands, so that the
  side effects of \<^verbatim>\<open>r\<close> occur even when \<^verbatim>\<open>l\<close> decides the result. Counterexample:
  \<^verbatim>\<open>print 1\<close> as the right operand writes a line when it is executed, but
  \<^verbatim>\<open>True or (print 1)\<close> and \<^verbatim>\<open>False and (print 1)\<close> write nothing.
\<close>

theorem C1_both_operands_counterexample:
  "Execute 3 (Print [NumberConst 1]) Map.empty initial_state
     = (Inr None_holder, Map.empty, initial_state\<lparr>output_stream := ''1'' @ [LF]\<rparr>)
   \<and> Execute 4 (Or (BoolConst True) (Print [NumberConst 1])) Map.empty initial_state
     = (Inr (Own (Bool True)), Map.empty, initial_state)
   \<and> Execute 4 (And (BoolConst False) (Print [NumberConst 1])) Map.empty initial_state
     = (Inr (Own (Bool False)), Map.empty, initial_state)"
  by (simp add: run_simps)

text \<open>
  Claim C1, amended: \<^verbatim>\<open>Or(l, r)\<close> and \<^verbatim>\<open>And(l, r)\<close> evaluate \<^verbatim>\<open>l\<close> first. When the
  truthiness of \<^verbatim>\<open>l\<close> decides the result (\<^verbatim>\<open>l\<close> truthy for \<^verbatim>\<open>Or\<close>, falsy for \<^verbatim>\<open>And\<close>),
  \<^verbatim>\<open>r\<close> is not evaluated: the closure and the state are those that \<^verbatim>\<open>l\<close> left. Otherwise
  \<^verbatim>\<open>r\<close> is evaluated after \<^verbatim>\<open>l\<close>. In both cases the result is an owned \<^verbatim>\<open>Bool\<close> holding
  the disjunction, respectively the conjunction, of the truthiness of the operands.
\<close>

theorem C1_short_circuit:
  assumes "Execute n l closure st = (Inr lv, closure1, st1)"
  shows "Execute (Suc n) (Or l r) closure st =
           (if IsTrue lv then (Inr (Own (Bool True)), closure1, st1)
            else (case Execute n r closure1 st1 of
                    (Inl e, closure2, st2) \<Rightarrow> (Inl e, closure2, st2)
                  | (Inr rv, closure2, st2) \<Rightarrow>
                      (Inr (Own (Bool (IsTrue lv \<or> IsTrue rv))), closure2, st2)))
         \<and> Execute (Suc n) (And l r) closure st =
           (if \<not> IsTrue lv then (Inr (Own (Bool False)), closure1, st1)
            else (case Execute n r closure1 st1 of
                    (Inl e, closure2, st2) \<Rightarrow> (Inl e, closure2, st2)
                  | (Inr rv, closure2, st2) \<Rightarrow>
                      (Inr (Own (Bool (IsTrue lv \<and> IsTrue rv))), closure2, st2)))"
  using assms by (simp split: prod.splits sum.splits)

theorem C1_short_circuit_witness:
  "Execute 2 (BoolConst True) Map.empty initial_state
     = (Inr (Own (Bool True)), Map.empty, initial_state)
   \<and> Execute 3 (Or (BoolConst True) (Print [NumberConst 1])) Map.empty initial_state
     = (Inr (Own (Bool True)), Map.empty, initial_state)
   \<and> Execute 3 (And (BoolConst True) (StringConst [])) Map.empty initial_state
     = (Inr (Own (Bool False)), Map.empty, initial_state)"
proof -
  have h: "Execute 2 (BoolConst True) Map.empty initial_state
     = (Inr (Own (Bool True)), Map.empty, initial_state)"
    by (simp add: run_simps)
  have t: "IsTrue (Own (Bool True))" "\<not> IsTrue (Own (String []))"
    by (simp_all add: IsTrue_def TryAs_String_def TryAs_Number_def TryAs_Bool_def)
  have s: "Execute 2 (StringConst []) Map.empty initial_state
     = (Inr (Own (String [])), Map.empty, initial_state)"
    by (simp add: run_simps)
  have n3: "(3::nat) = Suc 2" by simp
  show ?thesis
    using C1_short_circuit [OF h, of "Print [NumberConst 1]"]
      C1_short_circuit [OF h, of "StringConst []"] h t s
    unfolding n3 by simp
qed

subsection \<open>Dotted lookup\<close>

text \<open>
  Claim C3, as stated: in \<^verbatim>\<open>VariableValue([id0, ..., idN])\<close> a field access on a value that
  is not a \<^verbatim>\<open>ClassInstance\<close> is a runtime error. Counterexample: with \<^verbatim>\<open>x = 1\<close> and
  \<^verbatim>\<open>y = 2\<close> in the closure, \<^verbatim>\<open>x.y\<close> raises nothing and returns the value of \<^verbatim>\<open>y\<close>.
\<close>

theorem C3_non_instance_counterexample:
  "Execute 1 (VariableValue [''x'', ''y''])
     [''x'' \<mapsto> Own (Number 1), ''y'' \<mapsto> Own (Number 2)] initial_state
   = (Inr (Own (Number 2)),
      [''x'' \<mapsto> Own (Number 1), ''y'' \<mapsto> Own (Number 2)], initial_state)"
  by (simp add: TryAs_ClassInstance_def)

text \<open>
  Claim C3, amended: the lookup starts in the given closure with \<^verbatim>\<open>id0\<close>; a name that
  is absent from the closure being searched is a runtime error. When the value found
  is a \<^verbatim>\<open>ClassInstance\<close>, the next name is looked up in the fields of that instance; a
  value that is not a \<^verbatim>\<open>ClassInstance\<close> raises no error and leaves the closure being
  searched as it is. The value found last is returned, and neither the closure nor the
  state is changed.
\<close>

theorem C3_dotted_lookup:
  "Execute (Suc n) (VariableValue names) closure st
     = (lookup_names st names closure None_holder, closure, st)
   \<and> lookup_names st [] current obj = Inr obj
   \<and> (current nm = None \<longrightarrow>
        lookup_names st (nm # ids) current obj
          = Inl (runtime_error (''Variable '' @ nm @ '' not found'')))
   \<and> (current nm = Some v \<and> TryAs_ClassInstance v = Some a \<longrightarrow>
        lookup_names st (nm # ids) current obj = lookup_names st ids (Fields st a) v)
   \<and> (current nm = Some v \<and> TryAs_ClassInstance v = None \<longrightarrow>
        lookup_names st (nm # ids) current obj = lookup_names st ids current v)"
  by simp

theorem C3_dotted_lookup_witness:
  "Map.empty ''x'' = None
   \<and> lookup_names initial_state [''x'', ''y''] Map.empty None_holder
       = Inl (runtime_error ''Variable x not found'')
   \<and> [''p'' \<mapsto> Own (ClassInstance 0)] ''p'' = Some (Own (ClassInstance 0))
   \<and> TryAs_ClassInstance (Own (ClassInstance 0)) = Some 0
   \<and> lookup_names (set_field initial_state 0 ''f'' (Own (Number 7))) [''p'', ''f'']
         [''p'' \<mapsto> Own (ClassInstance 0)] None_holder
       = Inr (Own (Number 7))
   \<and> [''x'' \<mapsto> Own (Number 1), ''y'' \<mapsto> Own (Number 2)] ''x'' = Some (Own (Number 1))
   \<and> TryAs_ClassInstance (Own (Number 1)) = None
   \<and> lookup_names initial_state [''x'', ''y'']
         [''x'' \<mapsto> Own (Number 1), ''y'' \<mapsto> Own (Number 2)] None_holder
       = Inr (Own (Number 2))"
  using C3_dotted_lookup [where current = Map.empty and st = initial_state
      and nm = "''x''" and ids = "[''y'']" and obj = None_holder]
    C3_dotted_lookup [where current = "[''p'' \<mapsto> Own (ClassInstance 0)]"
      and st = "set_field initial_state 0 ''f'' (Own (Number 7))"
      and nm = "''p''" and ids = "[''f'']" and obj = None_holder
      and v = "Own (ClassInstance 0)" and a = 0]
    C3_dotted_lookup [where
      current = "[''x'' \<mapsto> Own (Number 1), ''y'' \<mapsto> Own (Number 2)]"
      and st = initial_state and nm = "''x''" and ids = "[''y'']" and obj = None_holder
      and v = "Own (Number 1)"]
  by (simp add: TryAs_ClassInstance_def Fields_def set_field_def initial_state_def)

subsection \<open>\<^verbatim>\<open>Stringify\<close>\<close>

text \<open>
  Claim C5: \<^verbatim>\<open>Stringify(expr)\<close> evaluates \<^verbatim>\<open>expr\<close> exactly once, and the side effects are
  those of a single evaluation.

  \<^verbatim>\<open>Stringify::Execute\<close> keeps the first result in \<^verbatim>\<open>obj\<close>, as \<^verbatim>\<open>Print::Execute\<close> does, but
  then prints \<^verbatim>\<open>argument_->Execute(closure, context)\<close>, a second evaluation, where
  \<^verbatim>\<open>Print::Execute\<close> prints \<^verbatim>\<open>obj\<close>. After \<^verbatim>\<open>c = Counter()\<close> the statement
  \<^verbatim>\<open>s = str(c.inc())\<close> leaves \<^verbatim>\<open>"2"\<close> in \<^verbatim>\<open>s\<close> and 2 in \<^verbatim>\<open>c.n\<close>, where \<^verbatim>\<open>s = c.inc()\<close>
  leaves 1 in both.
\<close>

theorem C5_stringify_executes_twice:
  "(case Execute 9
           (Compound
              [Assignment ''c'' (NewInstance Counter []),
               Assignment ''s'' (Stringify (MethodCall (VariableValue [''c'']) ''inc'' []))])
           Map.empty initial_state of
      (r, closure, st) \<Rightarrow>
        r = Inr None_holder
        \<and> closure ''s'' = Some (Own (String ''2''))
        \<and> Fields st 0 ''n'' = Some (Own (Number 2)))
   \<and> (case Execute 9
           (Compound
              [Assignment ''c'' (NewInstance Counter []),
               Assignment ''s'' (MethodCall (VariableValue [''c'']) ''inc'' [])])
           Map.empty initial_state of
      (r, closure, st) \<Rightarrow>
        r = Inr None_holder
        \<and> closure ''s'' = Some (Own (Number 1))
        \<and> Fields st 0 ''n'' = Some (Own (Number 1)))"
  by code_simp

subsection \<open>The field \<^verbatim>\<open>self\<close>\<close>

text \<open>
  Claim C6, as stated: the fields of every instance bind \<^verbatim>\<open>self\<close> to a \<^verbatim>\<open>Share\<close> holder
  of the instance, from \<^verbatim>\<open>NewInstance\<close> on and through every operation. Counterexample:
  the holder that \<^verbatim>\<open>NewInstance\<close> stores is the owning one, and after \<^verbatim>\<open>x = A()\<close> the
  statement \<^verbatim>\<open>x.self = 1\<close> binds the field to a number.
\<close>

theorem C6_self_share_counterexample:
  "(case Execute 1 (NewInstance (Class ''A'' [] None) []) Map.empty initial_state of
      (r, closure, st) \<Rightarrow>
        r = Inr (Own (ClassInstance 0))
        \<and> Fields st 0 ''self'' = Some (Own (ClassInstance 0))
        \<and> Fields st 0 ''self'' \<noteq> Some (Share (ClassInstance 0)))
   \<and> (case Execute 3
           (Compound
              [Assignment ''x'' (NewInstance (Class ''A'' [] None) []),
               FieldAssignment [''x''] ''self'' (NumberConst 1)])
           Map.empty initial_state of
      (r, closure, st) \<Rightarrow>
        r = Inr None_holder \<and> Fields st 0 ''self'' = Some (Own (Number 1)))"
  by code_simp

text \<open>
  Claim C6, amended: \<^verbatim>\<open>NewInstance\<close> binds \<^verbatim>\<open>self\<close>, as the only field of the instance it
  has constructed, to the owning holder (\<^verbatim>\<open>Own\<close>) of that instance, before it evaluates
  an argument or calls \<^verbatim>\<open>__init__\<close>. The binding holds at the start of a program and is
  kept by the execution of every statement that makes no field assignment to the name
  \<^verbatim>\<open>self\<close> (in its own text or in a method of a class it instantiates): after it, the
  fields of every instance constructed so far still bind \<^verbatim>\<open>self\<close> to the owning holder
  of that instance. A field assignment to the name \<^verbatim>\<open>self\<close> replaces the binding by the
  value assigned. A \<^verbatim>\<open>Share\<close> holder of the instance is what a method call binds to
  \<^verbatim>\<open>self\<close> in its local closure (when no formal parameter has that name).
\<close>

theorem C6_self_binding:
  "Execute (Suc n) (NewInstance cls args) closure st =
     (if HasMethod cls ''__init__'' (length args) then
        (case exec_args (Execute n) args closure (constructed cls st) of
           (Inl e, closure2, st2) \<Rightarrow> (Inl e, closure2, st2)
         | (Inr actual_args, closure2, st2) \<Rightarrow>
             (case Call (Execute n) (next_instance st) ''__init__'' actual_args st2 of
                (Inl e, st3) \<Rightarrow> (Inl e, closure2, st3)
              | (Inr _, st3) \<Rightarrow> (Inr (Own (ClassInstance (next_instance st))), closure2, st3)))
      else (Inr (Own (ClassInstance (next_instance st))), closure, constructed cls st))
   \<and> Fields (constructed cls st) (next_instance st)
       = [''self'' \<mapsto> Own (ClassInstance (next_instance st))]
   \<and> self_bound initial_state
   \<and> (no_self_field s \<and> self_bound st0 \<and> Execute k s closure0 st0 = (r, closure1, st1) \<longrightarrow>
        self_bound st1)
   \<and> (lookup_names st object closure None_holder = Inr h \<and> TryAs_ClassInstance h = Some a
        \<and> Execute n rv closure st = (Inr v, closure1, st1) \<longrightarrow>
      Execute (Suc n) (FieldAssignment object ''self'' rv) closure st
        = (Inr v, closure1, set_field st1 a ''self'' v)
      \<and> Fields (set_field st1 a ''self'' v) a ''self'' = Some v)
   \<and> (GetMethod (cls' (instances st this)) method_name = Some mth
        \<and> length (formal_params mth) = length actual
        \<and> ''self'' \<notin> set (formal_params mth) \<longrightarrow>
      (\<exists>local. local ''self'' = Some (Share (ClassInstance this))
           \<and> Call run this method_name actual st
               = (case run (body mth) local st of (r, _, st1) \<Rightarrow> (r, st1))))"
proof -
  have 2: "Fields (constructed cls st) (next_instance st)
       = [''self'' \<mapsto> Own (ClassInstance (next_instance st))]"
    by (simp add: constructed_def Fields_def)
  have 4: "no_self_field s \<and> self_bound st0 \<and> Execute k s closure0 st0 = (r, closure1, st1) \<longrightarrow>
        self_bound st1"
    using keeps_selfD [OF Execute_keeps_self] by blast
  have 5: "lookup_names st object closure None_holder = Inr h \<and> TryAs_ClassInstance h = Some a
        \<and> Execute n rv closure st = (Inr v, closure1, st1) \<longrightarrow>
      Execute (Suc n) (FieldAssignment object ''self'' rv) closure st
        = (Inr v, closure1, set_field st1 a ''self'' v)
      \<and> Fields (set_field st1 a ''self'' v) a ''self'' = Some v"
    by (simp add: set_field_def Fields_def)
  have 6: "GetMethod (cls' (instances st this)) method_name = Some mth
        \<and> length (formal_params mth) = length actual
        \<and> ''self'' \<notin> set (formal_params mth) \<longrightarrow>
      (\<exists>local. local ''self'' = Some (Share (ClassInstance this))
           \<and> Call run this method_name actual st
               = (case run (body mth) local st of (r, _, st1) \<Rightarrow> (r, st1)))"
    using Call_local_self [where st = st and this = this and method_name = method_name
        and mth = mth and actual_args = actual and run = run]
    by blast
  from NewInstance_constructed [of n cls args closure st] 2 self_bound_initial 4 5 6
  show ?thesis by (simp only: simp_thms)
qed

theorem C6_self_binding_witness:
  "no_self_field uses_counter
   \<and> self_bound initial_state
   \<and> self_bound (snd (snd (Execute 9 uses_counter Map.empty initial_state)))
   \<and> next_instance (snd (snd (Execute 9 uses_counter Map.empty initial_state))) = 1
   \<and> Fields (snd (snd (Execute 9 uses_counter Map.empty initial_state))) 0 ''self''
       = Some (Own (ClassInstance 0))
   \<and> Fields (snd (snd (Execute 9 uses_counter Map.empty initial_state))) 0 ''m''
       = Some (Own (Number 3))
   \<and> Execute (Suc 1) (FieldAssignment [''x''] ''self'' (NumberConst 1))
        [''x'' \<mapsto> Own (ClassInstance 0)] (constructed (Class ''A'' [] None) initial_state)
       = (Inr (Own (Number 1)), [''x'' \<mapsto> Own (ClassInstance 0)],
          set_field (constructed (Class ''A'' [] None) initial_state) 0 ''self''
            (Own (Number 1)))
   \<and> Fields (set_field (constructed (Class ''A'' [] None) initial_state) 0 ''self''
               (Own (Number 1))) 0 ''self''
       = Some (Own (Number 1))
   \<and> (\<exists>local. local ''self'' = Some (Share (ClassInstance 0))
        \<and> Call (Execute 5) 0 ''inc'' [] (constructed Counter initial_state)
            = (case Execute 5
                      (MethodBody (Compound
                         [FieldAssignment [''self''] ''n''
                            (Add (VariableValue [''self'', ''n'']) (NumberConst 1)),
                          Return (VariableValue [''self'', ''n''])]))
                      local (constructed Counter initial_state) of
                 (r, _, st1) \<Rightarrow> (r, st1)))"
proof -
  let ?E = "Execute 9 uses_counter Map.empty initial_state"
  let ?inc = "Method ''inc'' []
           (MethodBody (Compound
              [FieldAssignment [''self''] ''n''
                 (Add (VariableValue [''self'', ''n'']) (NumberConst 1)),
               Return (VariableValue [''self'', ''n''])]))"
  let ?A = "constructed (Class ''A'' [] None) initial_state"
  have ok: "no_self_field uses_counter"
    by (simp add: uses_counter_def Counter_sorted)
  have e: "?E = (fst ?E, fst (snd ?E), snd (snd ?E))" by simp
  note t1 = C6_self_binding [where s = uses_counter and ?st0.0 = initial_state and k = 9
      and ?closure0.0 = Map.empty and r = "fst ?E" and ?closure1.0 = "fst (snd ?E)"
      and ?st1.0 = "snd (snd ?E)"]
  from t1 ok e have g1: "self_bound initial_state" "self_bound (snd (snd ?E))" by blast+
  have g2: "next_instance (snd (snd ?E)) = 1
     \<and> Fields (snd (snd ?E)) 0 ''self'' = Some (Own (ClassInstance 0))
     \<and> Fields (snd (snd ?E)) 0 ''m'' = Some (Own (Number 3))"
    unfolding uses_counter_def by code_simp
  have l: "lookup_names ?A [''x''] [''x'' \<mapsto> Own (ClassInstance 0)] None_holder
             = Inr (Own (ClassInstance 0))"
    "TryAs_ClassInstance (Own (ClassInstance 0)) = Some 0"
    "Execute 1 (NumberConst 1) [''x'' \<mapsto> Own (ClassInstance 0)] ?A
       = (Inr (Own (Number 1)), [''x'' \<mapsto> Own (ClassInstance 0)], ?A)"
    by (simp_all add: TryAs_ClassInstance_def)
  note t2 = C6_self_binding [where st = ?A and object = "[''x'']"
      and closure = "[''x'' \<mapsto> Own (ClassInstance 0)]" and h = "Own (ClassInstance 0)"
      and a = 0 and n = 1 and rv = "NumberConst 1" and v = "Own (Number 1)"
      and ?closure1.0 = "[''x'' \<mapsto> Own (ClassInstance 0)]" and ?st1.0 = ?A]
  from t2 l
  have g3: "Execute (Suc 1) (FieldAssignment [''x''] ''self'' (NumberConst 1))
        [''x'' \<mapsto> Own (ClassInstance 0)] ?A
       = (Inr (Own (Number 1)), [''x'' \<mapsto> Own (ClassInstance 0)],
          set_field ?A 0 ''self'' (Own (Number 1)))
     \<and> Fields (set_field ?A 0 ''self'' (Own (Number 1))) 0 ''self'' = Some (Own (Number 1))"
    by blast
  have g: "GetMethod (cls' (instances (constructed Counter initial_state) 0)) ''inc''
             = Some ?inc"
    by (simp add: constructed_def initial_state_def Counter_sorted)
  have p: "length (formal_params ?inc) = length ([] :: ObjectHolder list)"
    "''self'' \<notin> set (formal_params ?inc)"
    by simp_all
  note t3 = C6_self_binding [where st = "constructed Counter initial_state" and this = 0
      and method_name = "''inc''" and actual = "[]" and run = "Execute 5" and mth = ?inc]
  from t3 g p
  have g4: "\<exists>local. local ''self'' = Some (Share (ClassInstance 0))
        \<and> Call (Execute 5) 0 ''inc'' [] (constructed Counter initial_state)
            = (case Execute 5 (body ?inc) local (constructed Counter initial_state) of
                 (r, _, st1) \<Rightarrow> (r, st1))"
    by blast
  from ok g1 g2 g3 g4 show ?thesis by simp
qed

subsection \<open>\<^verbatim>\<open>Return\<close> and \<^verbatim>\<open>MethodBody\<close>\<close>



subsection \<open>Assignment\<close>

text \<open>
  Claim C9, as stated: when the evaluation of \<^verbatim>\<open>rhs\<close> raises, \<^verbatim>\<open>var\<close> remains bound to
  \<^verbatim>\<open>None\<close>. Counterexample: in \<^verbatim>\<open>Assignment(x, Add(Assignment(x, 5), None))\<close> the right-hand
  side binds \<^verbatim>\<open>x\<close> to 5 before its addition raises, and the closure is left with \<^verbatim>\<open>x\<close>
  bound to 5.
\<close>

theorem C9_nested_assignment_counterexample:
  "Execute 4 (Assignment ''x'' (Add (Assignment ''x'' (NumberConst 5)) NoneConst))
     Map.empty initial_state
   = (Inl (runtime_error ''no Add operation for such data types''),
      [''x'' \<mapsto> Own (Number 5)], initial_state)"
  by (simp add: run_simps subscript_def)

text \<open>
  Claim C9, amended: \<^verbatim>\<open>Assignment(var, rhs)\<close> creates the entry of \<^verbatim>\<open>var\<close> in the closure,
  holding \<^verbatim>\<open>None\<close>, before it evaluates \<^verbatim>\<open>rhs\<close>. For a \<^verbatim>\<open>var\<close> that was not bound: \<^verbatim>\<open>rhs\<close>
  is evaluated in the closure that binds \<^verbatim>\<open>var\<close> to \<^verbatim>\<open>None\<close>; when \<^verbatim>\<open>rhs\<close> raises, the
  assignment raises the same and leaves the closure as \<^verbatim>\<open>rhs\<close> left it, in which \<^verbatim>\<open>var\<close>
  is still bound to \<^verbatim>\<open>None\<close> provided that \<^verbatim>\<open>rhs\<close> does not itself assign \<^verbatim>\<open>var\<close>; and
  \<^verbatim>\<open>var = var\<close> returns \<^verbatim>\<open>None\<close> where reading \<^verbatim>\<open>var\<close> alone is an error.
\<close>

theorem C9_assignment_binds_first:
  assumes "closure var = None"
  shows "Execute (Suc n) (Assignment var rv) closure st =
           (case Execute n rv (closure(var \<mapsto> None_holder)) st of
              (Inl e, closure1, st1) \<Rightarrow> (Inl e, closure1, st1)
            | (Inr v, closure1, st1) \<Rightarrow> (Inr v, closure1(var \<mapsto> v), st1))
         \<and> (var \<notin> assigned rv
              \<and> Execute n rv (closure(var \<mapsto> None_holder)) st = (Inl e, closure1, st1) \<longrightarrow>
            Execute (Suc n) (Assignment var rv) closure st = (Inl e, closure1, st1)
              \<and> closure1 var = Some None_holder)
         \<and> Execute (Suc n) (VariableValue [var]) closure st
             = (Inl (runtime_error (''Variable '' @ var @ '' not found'')), closure, st)
         \<and> Execute (Suc (Suc n)) (Assignment var (VariableValue [var])) closure st
             = (Inr None_holder, closure(var \<mapsto> None_holder), st)"
proof -
  have sub: "subscript closure var = closure(var \<mapsto> None_holder)"
    using assms by (simp add: subscript_def)
  have 1: "Execute (Suc n) (Assignment var rv) closure st =
           (case Execute n rv (closure(var \<mapsto> None_holder)) st of
              (Inl e, closure1, st1) \<Rightarrow> (Inl e, closure1, st1)
            | (Inr v, closure1, st1) \<Rightarrow> (Inr v, closure1(var \<mapsto> v), st1))"
    by (simp add: sub)
  have 2: "var \<notin> assigned rv
              \<and> Execute n rv (closure(var \<mapsto> None_holder)) st = (Inl e, closure1, st1) \<longrightarrow>
            Execute (Suc n) (Assignment var rv) closure st = (Inl e, closure1, st1)
              \<and> closure1 var = Some None_holder"
  proof (intro impI, elim conjE)
    assume nv: "var \<notin> assigned rv"
      and ex: "Execute n rv (closure(var \<mapsto> None_holder)) st = (Inl e, closure1, st1)"
    from keeps_frameD [OF Execute_keeps_frame ex] nv
    have "closure1 var = Some None_holder" by (simp add: agree_outside_def)
    with 1 ex show "Execute (Suc n) (Assignment var rv) closure st = (Inl e, closure1, st1)
              \<and> closure1 var = Some None_holder" by simp
  qed
  have 3: "Execute (Suc n) (VariableValue [var]) closure st
             = (Inl (runtime_error (''Variable '' @ var @ '' not found'')), closure, st)"
    using assms by simp
  have 4: "Execute (Suc (Suc n)) (Assignment var (VariableValue [var])) closure st
             = (Inr None_holder, closure(var \<mapsto> None_holder), st)"
    by (simp add: sub TryAs_ClassInstance_def)
  from 1 2 3 4 show ?thesis by (simp only: simp_thms)
qed

theorem C9_assignment_binds_first_witness:
  "Map.empty ''x'' = None
   \<and> ''x'' \<notin> assigned (Add (VariableValue [''x'']) (NumberConst 1))
   \<and> Execute 2 (Add (VariableValue [''x'']) (NumberConst 1)) [''x'' \<mapsto> None_holder] initial_state
       = (Inl (runtime_error ''no Add operation for such data types''),
          [''x'' \<mapsto> None_holder], initial_state)
   \<and> Execute (Suc 2) (Assignment ''x'' (Add (VariableValue [''x'']) (NumberConst 1)))
        Map.empty initial_state
       = (Inl (runtime_error ''no Add operation for such data types''),
          [''x'' \<mapsto> None_holder], initial_state)
   \<and> [''x'' \<mapsto> None_holder] ''x'' = Some None_holder
   \<and> Execute (Suc (Suc 0)) (Assignment ''x'' (VariableValue [''x''])) Map.empty initial_state
       = (Inr None_holder, [''x'' \<mapsto> None_holder], initial_state)
   \<and> Execute (Suc 0) (VariableValue [''x'']) Map.empty initial_state
       = (Inl (runtime_error (''Variable '' @ ''x'' @ '' not found'')), Map.empty, initial_state)"
proof -
  have h: "(Map.empty :: Closure) ''x'' = None" by simp
  have a: "''x'' \<notin> assigned (Add (VariableValue [''x'']) (NumberConst 1))" by simp
  have e: "Execute 2 (Add (VariableValue [''x'']) (NumberConst 1))
             [''x'' \<mapsto> None_holder] initial_state
       = (Inl (runtime_error ''no Add operation for such data types''),
          [''x'' \<mapsto> None_holder], initial_state)"
    by (simp add: run_simps)
  note t1 = C9_assignment_binds_first [where closure = Map.empty and var = "''x''"
      and n = 2 and st = initial_state
      and rv = "Add (VariableValue [''x'']) (NumberConst 1)"
      and e = "runtime_error ''no Add operation for such data types''"
      and ?closure1.0 = "[''x'' \<mapsto> None_holder]" and ?st1.0 = initial_state, OF h]
  note t2 = C9_assignment_binds_first [where closure = Map.empty and var = "''x''"
      and n = 0 and st = initial_state, OF h]
  from t1 a e
  have g1: "Execute (Suc 2) (Assignment ''x'' (Add (VariableValue [''x'']) (NumberConst 1)))
        Map.empty initial_state
       = (Inl (runtime_error ''no Add operation for such data types''),
          [''x'' \<mapsto> None_holder], initial_state)
     \<and> [''x'' \<mapsto> None_holder] ''x'' = Some None_holder"
    by blast
  from t2
  have g2: "Execute (Suc (Suc 0)) (Assignment ''x'' (VariableValue [''x''])) Map.empty
              initial_state
       = (Inr None_holder, [''x'' \<mapsto> None_holder], initial_state)"
    and g3: "Execute (Suc 0) (VariableValue [''x'']) Map.empty initial_state
       = (Inl (runtime_error (''Variable '' @ ''x'' @ '' not found'')), Map.empty,
          initial_state)"
    by blast+
  from h a e g1 g2 g3 show ?thesis by (simp only: simp_thms)
qed

subsection \<open>\<^verbatim>\<open>NewInstance\<close> without a matching \<^verbatim>\<open>__init__\<close>\<close>

text \<open>
  Claim C10: when no \<^verbatim>\<open>__init__\<close> of arity \<^verbatim>\<open>|args|\<close> is found along the ancestor chain
  of the class, \<^verbatim>\<open>NewInstance(class, args)\<close> raises nothing and evaluates no argument (the
  closure is returned as it was, and the state differs from the one before by the new
  instance only), and it returns the new instance, of the class given, with \<^verbatim>\<open>self\<close> as
  its only field.
\<close>

theorem C10_no_matching_init:
  assumes "\<not> method_along_chain cls ''__init__'' (length args)"
  shows "Execute (Suc n) (NewInstance cls args) closure st
           = (Inr (Own (ClassInstance (next_instance st))), closure, constructed cls st)
         \<and> output_stream (constructed cls st) = output_stream st
         \<and> Fields (constructed cls st) (next_instance st)
             = [''self'' \<mapsto> Own (ClassInstance (next_instance st))]
         \<and> cls' (instances (constructed cls st) (next_instance st)) = cls"
proof -
  from assms have "\<not> HasMethod cls ''__init__'' (length args)"
    using HasMethod_along_chain by blast
  then have "Execute (Suc n) (NewInstance cls args) closure st
           = (Inr (Own (ClassInstance (next_instance st))), closure, constructed cls st)"
    by (subst NewInstance_constructed) simp
  moreover have "output_stream (constructed cls st) = output_stream st"
    "Fields (constructed cls st) (next_instance st)
       = [''self'' \<mapsto> Own (ClassInstance (next_instance st))]"
    "cls' (instances (constructed cls st) (next_instance st)) = cls"
    by (simp_all add: constructed_def Fields_def)
  ultimately show ?thesis by (simp only: simp_thms)
qed

theorem C10_no_matching_init_witness:
  "\<not> method_along_chain Point ''__init__'' (length [Print [NumberConst 1], Print [NumberConst 2]])
   \<and> Execute 1 (NewInstance Point [Print [NumberConst 1], Print [NumberConst 2]])
        Map.empty initial_state
      = (Inr (Own (ClassInstance 0)), Map.empty, constructed Point initial_state)
   \<and> output_stream (constructed Point initial_state) = []
   \<and> Fields (constructed Point initial_state) 0 = [''self'' \<mapsto> Own (ClassInstance 0)]"
proof -
  have h: "\<not> method_along_chain Point ''__init__''
              (length [Print [NumberConst 1], Print [NumberConst 2]])"
    by (simp add: method_along_chain_def Point_def new_Class_def)
  have n: "next_instance initial_state = 0" "output_stream initial_state = []"
    by (simp_all add: initial_state_def)
  from C10_no_matching_init [OF h, of 0 Map.empty initial_state] h
  show ?thesis unfolding n One_nat_def by (simp only: simp_thms)
qed

end
